theory Spec2Isabelle
  imports Main "HOL-Library.Multiset" "HOL-Library.AList"
begin

section \<open>Errors\<close>

text \<open>
  Every \<^verbatim>\<open>assert\<close> of the Python source that fails is the value \<open>Inl AssertionError\<close>;
  a subscript on a dict with a missing key is \<open>Inl KeyError\<close>; reading an attribute
  that the class of the object does not have is \<open>Inl AttributeError\<close>; calling an object
  that is not callable is \<open>Inl TypeError\<close>.
\<close>

datatype error = AssertionError | KeyError | AttributeError | TypeError

section \<open>Runtime types (ops.py)\<close>

text \<open>
  The class hierarchy below \<^verbatim>\<open>RType\<close> as a datatype, one constructor per class.
  \<^item> \<open>RPrimitive name is_unboxed is_refcounted ctype c_undefined\<close>: the five attributes
    that \<^verbatim>\<open>RPrimitive.__init__\<close> stores.
  \<^item> \<open>RTuple types\<close>.
  \<^item> \<open>RInstance name\<close>: \<^verbatim>\<open>RInstance.__init__\<close> stores \<^verbatim>\<open>class_ir.name\<close> as its name and
    a reference to the \<^verbatim>\<open>ClassIR\<close> object. A class may have attributes of its own instance
    type, so the reference is not embedded in the datatype: the operations that follow the
    reference (\<^verbatim>\<open>getter_index\<close>, \<^verbatim>\<open>setter_index\<close>, \<^verbatim>\<open>method_index\<close>) take the
    \<^verbatim>\<open>ClassIR\<close> as their first argument.
  \<^item> \<open>ROptional value_type\<close>.
  \<^item> \<open>RUnion items\<close> and \<open>RVoid\<close>: sametype.py imports these two classes from ops and
    visits them, but ops.py declares neither. Their shape is the one sametype.py reads
    (\<^verbatim>\<open>items\<close>, and no attribute at all).
\<close>

datatype RType =
    RPrimitive string bool bool string string
  | RTuple "RType list"
  | RInstance string
  | ROptional RType
  | RUnion "RType list"
  | RVoid

text \<open>
  \<^verbatim>\<open>RPrimitive.__init__\<close>: the sentinel is chosen from the C type, and an unknown C type
  fails the assertion, so no such primitive exists.
\<close>

definition RPrimitive_init :: "string \<Rightarrow> bool \<Rightarrow> bool \<Rightarrow> string \<Rightarrow> error + RType" where
  "RPrimitive_init name is_unboxed is_refcounted ctype =
     (if ctype = ''CPyTagged'' then
        Inr (RPrimitive name is_unboxed is_refcounted ctype ''CPY_INT_TAG'')
      else if ctype = ''PyObject *'' then
        Inr (RPrimitive name is_unboxed is_refcounted ctype ''NULL'')
      else if ctype = ''char'' then
        Inr (RPrimitive name is_unboxed is_refcounted ctype ''2'')
      else Inl AssertionError)"

text \<open>Four entries of the registry of primitives, as the module-level assignments build them.\<close>

definition object_rprimitive :: RType where
  "object_rprimitive = RPrimitive ''builtins.object'' False True ''PyObject *'' ''NULL''"

definition int_rprimitive :: RType where
  "int_rprimitive = RPrimitive ''builtins.int'' True True ''CPyTagged'' ''CPY_INT_TAG''"

definition bool_rprimitive :: RType where
  "bool_rprimitive = RPrimitive ''builtins.bool'' True False ''char'' ''2''"

definition str_rprimitive :: RType where
  "str_rprimitive = RPrimitive ''builtins.str'' False True ''PyObject *'' ''NULL''"

text \<open>The class of a runtime type, which \<^verbatim>\<open>isinstance\<close> tests.\<close>

datatype Variant = Primitive | Tuple | Instance | Optional | Union | Void

fun variant_of :: "RType \<Rightarrow> Variant" where
  "variant_of (RPrimitive n u r ct cu) = Primitive"
| "variant_of (RTuple ts) = Tuple"
| "variant_of (RInstance n) = Instance"
| "variant_of (ROptional v) = Optional"
| "variant_of (RUnion ts) = Union"
| "variant_of RVoid = Void"

text \<open>
  \<^verbatim>\<open>c_undefined_value\<close>, one equation per class. \<^verbatim>\<open>RTuple.c_undefined_value\<close> is
  \<^verbatim>\<open>assert False\<close>. The method of the two classes that ops.py does not declare is the
  parameter \<open>absent\<close>.
\<close>

fun c_undefined_value :: "(RType \<Rightarrow> error + string) \<Rightarrow> RType \<Rightarrow> error + string" where
  "c_undefined_value absent (RPrimitive n u r ct cu) = Inr cu"
| "c_undefined_value absent (RTuple ts) = Inl AssertionError"
| "c_undefined_value absent (RInstance n) = Inr ''NULL''"
| "c_undefined_value absent (ROptional v) = Inr ''NULL''"
| "c_undefined_value absent (RUnion ts) = absent (RUnion ts)"
| "c_undefined_value absent RVoid = absent RVoid"

text \<open>\<^verbatim>\<open>RType.c_error_value\<close> delegates to \<^verbatim>\<open>c_undefined_value\<close>.\<close>

definition c_error_value :: "(RType \<Rightarrow> error + string) \<Rightarrow> RType \<Rightarrow> error + string" where
  "c_error_value absent t = c_undefined_value absent t"

text \<open>
  \<^verbatim>\<open>RTuple.struct_name\<close> and the \<^verbatim>\<open>ctype\<close> that \<^verbatim>\<open>RTuple.__init__\<close> stores. The
  \<^verbatim>\<open>unique_id\<close> property is cut from Python's \<^verbatim>\<open>hash\<close>, which is the parameter
  \<open>unique_id\<close> here.
\<close>

definition struct_name :: "(RType list \<Rightarrow> string) \<Rightarrow> RType list \<Rightarrow> string" where
  "struct_name unique_id ts = ''tuple_def_'' @ unique_id ts"

definition rtuple_ctype :: "(RType list \<Rightarrow> string) \<Rightarrow> RType list \<Rightarrow> string" where
  "rtuple_ctype unique_id ts = ''struct '' @ struct_name unique_id ts"

section \<open>Same type check (sametype.py)\<close>

text \<open>
  The inner loop of \<^verbatim>\<open>visit_runion\<close>: delete the first item that satisfies \<open>p\<close>;
  \<open>None\<close> is the \<^verbatim>\<open>else\<close> branch of the \<^verbatim>\<open>for\<close> (no item matched).
\<close>

fun remove_first_match :: "('a \<Rightarrow> bool) \<Rightarrow> 'a list \<Rightarrow> 'a list option" where
  "remove_first_match p [] = None"
| "remove_first_match p (y # ys) =
     (if p y then Some ys else map_option (Cons y) (remove_first_match p ys))"

text \<open>The outer loop of \<^verbatim>\<open>visit_runion\<close>, ending in \<^verbatim>\<open>return not items\<close>.\<close>

fun union_items_match :: "('a \<Rightarrow> 'a \<Rightarrow> bool) \<Rightarrow> 'a list \<Rightarrow> 'a list \<Rightarrow> bool" where
  "union_items_match same [] items = (items = [])"
| "union_items_match same (l # ls) items =
     (case remove_first_match (same l) items of
        None \<Rightarrow> False
      | Some items' \<Rightarrow> union_items_match same ls items')"

lemma union_items_match_cong [fundef_cong]:
  "ls = ls' \<Longrightarrow> rs = rs' \<Longrightarrow> (\<And>x y. x \<in> set ls' \<Longrightarrow> same x y = same' x y) \<Longrightarrow>
   union_items_match same ls rs = union_items_match same' ls' rs'"
proof (induction ls arbitrary: ls' rs rs')
  case Nil
  then show ?case by simp
next
  case (Cons l ls)
  have eq: "same l = same' l" using Cons.prems by auto
  show ?case using Cons.prems Cons.IH[OF refl refl]
    by (auto simp: eq split: option.splits)
qed

text \<open>
  \<^verbatim>\<open>is_same_type(a, b)\<close> is \<^verbatim>\<open>a.accept(SameTypeVisitor(b))\<close>: the equation is chosen by
  the class of the left type, and each \<^verbatim>\<open>visit_*\<close> method tests the class of the right
  type with \<^verbatim>\<open>isinstance\<close>. The equations are in the order of the methods.
\<close>

function is_same_type :: "RType \<Rightarrow> RType \<Rightarrow> bool" where
  "is_same_type (RInstance n) right =
     (case right of RInstance m \<Rightarrow> n = m | _ \<Rightarrow> False)"
| "is_same_type (ROptional v) right =
     (case right of ROptional w \<Rightarrow> is_same_type v w | _ \<Rightarrow> False)"
| "is_same_type (RUnion ls) right =
     (case right of RUnion rs \<Rightarrow> union_items_match is_same_type ls rs | _ \<Rightarrow> False)"
| "is_same_type (RPrimitive n u r ct cu) right =
     (case right of RPrimitive m u' r' ct' cu' \<Rightarrow> n = m | _ \<Rightarrow> False)"
| "is_same_type (RTuple ls) right =
     (case right of
        RTuple rs \<Rightarrow> length rs = length ls
                     \<and> list_all (\<lambda>(t1, t2). is_same_type t1 t2) (zip ls rs)
      | _ \<Rightarrow> False)"
| "is_same_type RVoid right = (case right of RVoid \<Rightarrow> True | _ \<Rightarrow> False)"
  by pat_completeness auto
termination
  apply (relation "measure (\<lambda>(a, b). size a)")
  apply (auto dest!: set_zip_leftD simp: less_Suc_eq_le size_list_estimation')
  done

text \<open>
  \<^verbatim>\<open>RuntimeArg\<close> (ops.py) and \<^verbatim>\<open>FuncSignature\<close>. sametype.py imports
  \<^verbatim>\<open>FuncSignature\<close> from ops, which does not declare it; the record has the two
  attributes that sametype.py reads, \<^verbatim>\<open>args\<close> and \<^verbatim>\<open>ret_type\<close>.
\<close>

record RuntimeArg =
  arg_name :: string
  arg_type :: RType

record FuncSignature =
  sig_args :: "RuntimeArg list"
  sig_ret_type :: RType

definition is_same_signature :: "FuncSignature \<Rightarrow> FuncSignature \<Rightarrow> bool" where
  "is_same_signature a b =
     (length (sig_args a) = length (sig_args b)
      \<and> is_same_type (sig_ret_type a) (sig_ret_type b)
      \<and> list_all (\<lambda>(t1, t2). is_same_type (arg_type t1) (arg_type t2)
                               \<and> arg_name t1 = arg_name t2)
           (zip (sig_args a) (sig_args b)))"

text \<open>The slice \<^verbatim>\<open>args[1:]\<close> is \<open>drop 1\<close>: it is empty on an empty list.\<close>

definition is_same_method_signature :: "FuncSignature \<Rightarrow> FuncSignature \<Rightarrow> bool" where
  "is_same_method_signature a b =
     (length (sig_args a) = length (sig_args b)
      \<and> is_same_type (sig_ret_type a) (sig_ret_type b)
      \<and> list_all (\<lambda>(t1, t2). is_same_type (arg_type t1) (arg_type t2)
                               \<and> arg_name t1 = arg_name t2)
           (zip (drop 1 (sig_args a)) (drop 1 (sig_args b))))"

text \<open>
  The method comparison as the specification words it: arity, return type and the
  types at the positions after the receiver, with no test of the argument names.
\<close>

definition spec_is_same_method_signature :: "FuncSignature \<Rightarrow> FuncSignature \<Rightarrow> bool" where
  "spec_is_same_method_signature a b =
     (length (sig_args a) = length (sig_args b)
      \<and> is_same_type (sig_ret_type a) (sig_ret_type b)
      \<and> list_all (\<lambda>(t1, t2). is_same_type (arg_type t1) (arg_type t2))
           (zip (drop 1 (sig_args a)) (drop 1 (sig_args b))))"

section \<open>Registers, operations and containers (ops.py)\<close>

text \<open>
  \<^verbatim>\<open>Register = Union[CRegister, 'Op']\<close>: an integer slot, or an operation that is its own
  result handle. Operations are compared by object identity, which is the number carried
  by \<open>OpRegister\<close>. Labels are integers.
\<close>

datatype Register = CRegister int | OpRegister nat

type_synonym Label = int

definition INVALID_REGISTER :: Register where
  "INVALID_REGISTER = CRegister (- 99999)"

text \<open>\<^verbatim>\<open>class Op\<close> holds the source line; its subclasses extend it.\<close>

record Op =
  line :: int

record Branch = Op +
  left :: Register
  right :: Register
  true :: Label
  false :: Label
  op :: int
  negated :: bool
  traceback_entry :: "(string \<times> int) option"

definition Branch_init ::
  "Register \<Rightarrow> Register \<Rightarrow> Label \<Rightarrow> Label \<Rightarrow> int \<Rightarrow> int \<Rightarrow> Branch" where
  "Branch_init l r true_label false_label opcode ln =
     \<lparr> line = ln, left = l, right = r, true = true_label, false = false_label,
       op = opcode, negated = False, traceback_entry = None \<rparr>"

text \<open>
  \<^verbatim>\<open>Branch.invert\<close>: the tuple assignment reads both labels before it writes either.
\<close>

definition invert :: "Branch \<Rightarrow> Branch" where
  "invert b = b\<lparr> true := false b, false := true b, negated := \<not> negated b \<rparr>"

text \<open>
  \<^verbatim>\<open>class LoadErrorValue\<close>. Its instance attributes are \<^verbatim>\<open>line\<close>, \<^verbatim>\<open>_dest\<close> (set by
  \<^verbatim>\<open>RegisterOp.__init__\<close>) and \<^verbatim>\<open>_type\<close>; the fields \<open>private_dest\<close> and
  \<open>private_type\<close> are the two with the underscore. \<^verbatim>\<open>__init__\<close> passes the operation
  itself as its destination, so the first argument of \<open>LoadErrorValue_init\<close> is the
  identity of the new object. The two assertions of \<^verbatim>\<open>RegisterOp.__init__\<close> hold: the
  operation is not \<^verbatim>\<open>INVALID_REGISTER\<close>, and the \<^verbatim>\<open>error_kind\<close> of the class is
  \<^verbatim>\<open>ERR_NEVER\<close>.
\<close>

record LoadErrorValue = Op +
  private_dest :: Register
  private_type :: RType

definition LoadErrorValue_init :: "nat \<Rightarrow> RType \<Rightarrow> int \<Rightarrow> LoadErrorValue" where
  "LoadErrorValue_init self t ln =
     \<lparr> line = ln, private_dest = OpRegister self, private_type = t \<rparr>"

text \<open>
  The properties \<^verbatim>\<open>dest\<close> and \<^verbatim>\<open>type\<close> of \<^verbatim>\<open>StrictRegisterOp\<close> return the two
  attributes (their assertions are that neither is \<^verbatim>\<open>None\<close>).
\<close>

definition LoadErrorValue_dest :: "LoadErrorValue \<Rightarrow> Register" where
  "LoadErrorValue_dest operation = private_dest operation"

definition LoadErrorValue_type :: "LoadErrorValue \<Rightarrow> RType" where
  "LoadErrorValue_type operation = private_type operation"

text \<open>
  Reading \<^verbatim>\<open>op.rtype\<close> on a \<^verbatim>\<open>LoadErrorValue\<close>. Neither the class nor any of its bases
  (\<^verbatim>\<open>StrictRegisterOp\<close>, \<^verbatim>\<open>RegisterOp\<close>, \<^verbatim>\<open>Op\<close>) has an attribute of that name: the
  type is stored as \<^verbatim>\<open>_type\<close> and read as \<^verbatim>\<open>type\<close>, as the \<^verbatim>\<open>to_str\<close> of the class
  does. The read raises.
\<close>

definition LoadErrorValue_rtype :: "LoadErrorValue \<Rightarrow> error + RType" where
  "LoadErrorValue_rtype operation = Inl AttributeError"

text \<open>
  \<^verbatim>\<open>FuncIR\<close> and \<^verbatim>\<open>ClassIR\<close>. Of a function, the operations below read the name and
  \<^verbatim>\<open>cname\<close>; its blocks and its environment are left out of the record.
  \<^verbatim>\<open>FuncIR.__init__\<close> stores \<^verbatim>\<open>cname\<close> as a string: the name, or the class name,
  three underscores and the name when the class name is neither \<^verbatim>\<open>None\<close> nor empty.
\<close>

record FuncIR =
  fn_name :: string
  fn_class_name :: "string option"
  fn_cname :: string
  fn_args :: "RuntimeArg list"
  fn_ret_type :: RType

definition FuncIR_init :: "string \<Rightarrow> string option \<Rightarrow> RuntimeArg list \<Rightarrow> RType \<Rightarrow> FuncIR" where
  "FuncIR_init name class_name args ret_type =
     \<lparr> fn_name = name, fn_class_name = class_name,
       fn_cname = (case class_name of
                     None \<Rightarrow> name
                   | Some c \<Rightarrow> if c = [] then name else c @ ''___'' @ name),
       fn_args = args, fn_ret_type = ret_type \<rparr>"

text \<open>
  Calling a string, as in \<^verbatim>\<open>fn.cname(emitter.names)\<close>: a \<^verbatim>\<open>str\<close> is not callable, so
  the call raises whatever the string and the argument are.
\<close>

definition call_str_object :: "string \<Rightarrow> error + string" where
  "call_str_object s = Inl TypeError"


record ClassIR =
  cl_name :: string
  attributes :: "(string \<times> RType) list"
  methods :: "FuncIR list"

text \<open>\<^verbatim>\<open>ClassIR.type_struct\<close>.\<close>

definition type_struct :: "ClassIR \<Rightarrow> string" where
  "type_struct cl = cl_name cl @ ''Type''"

text \<open>
  \<^verbatim>\<open>RInstance.getter_index\<close>: the \<^verbatim>\<open>for\<close> loop over \<^verbatim>\<open>enumerate(attributes)\<close> with
  its counter, returning at the first attribute of that name; the \<^verbatim>\<open>assert False\<close>
  after the loop is the empty list.
\<close>

fun getter_index_loop :: "int \<Rightarrow> (string \<times> RType) list \<Rightarrow> string \<Rightarrow> error + int" where
  "getter_index_loop i [] name = Inl AssertionError"
| "getter_index_loop i ((attr, t) # rest) name =
     (if attr = name then Inr (i * 2) else getter_index_loop (i + 1) rest name)"

definition getter_index :: "ClassIR \<Rightarrow> string \<Rightarrow> error + int" where
  "getter_index class_ir name = getter_index_loop 0 (attributes class_ir) name"

definition setter_index :: "ClassIR \<Rightarrow> string \<Rightarrow> error + int" where
  "setter_index class_ir name =
     (case getter_index class_ir name of Inl e \<Rightarrow> Inl e | Inr g \<Rightarrow> Inr (g + 1))"

fun method_index_loop :: "int \<Rightarrow> int \<Rightarrow> FuncIR list \<Rightarrow> string \<Rightarrow> error + int" where
  "method_index_loop base i [] name = Inl AssertionError"
| "method_index_loop base i (fn # rest) name =
     (if fn_name fn = name then Inr (base + i) else method_index_loop base (i + 1) rest name)"

definition method_index :: "ClassIR \<Rightarrow> string \<Rightarrow> error + int" where
  "method_index class_ir name =
     method_index_loop (int (length (attributes class_ir)) * 2) 0 (methods class_ir) name"

text \<open>
  \<^verbatim>\<open>ModuleIR.__init__\<close>: the import list is copied, and \<^verbatim>\<open>'builtins'\<close> is inserted at
  position 0 when the copy does not contain it.
\<close>

record ModuleIR =
  mod_imports :: "string list"
  mod_unicode_literals :: "(string \<times> string) list"
  mod_functions :: "FuncIR list"
  mod_classes :: "ClassIR list"

text \<open>
  Reading \<^verbatim>\<open>module.literals\<close> on a \<^verbatim>\<open>ModuleIR\<close>. The attributes of the class are
  \<^verbatim>\<open>imports\<close>, \<^verbatim>\<open>unicode_literals\<close>, \<^verbatim>\<open>functions\<close> and \<^verbatim>\<open>classes\<close>: there is no
  \<^verbatim>\<open>literals\<close>, and the read raises. Where the attribute is read, its value is taken for
  a dict from literal constants to symbols; a literal is an \<^verbatim>\<open>int\<close>, a \<^verbatim>\<open>float\<close> (of any
  type \<open>'f\<close>), a \<^verbatim>\<open>str\<close> or another object.
\<close>

datatype 'f Literal = IntLiteral int | FloatLiteral 'f | StrLiteral string | OtherLiteral

definition ModuleIR_literals :: "ModuleIR \<Rightarrow> error + ('f Literal \<times> string) list" where
  "ModuleIR_literals module = Inl AttributeError"

text \<open>
  \<^verbatim>\<open>c_module_name\<close>: \<^verbatim>\<open>replace\<close> rewrites every dot of the module name.
\<close>

definition c_module_name :: "string \<Rightarrow> string" where
  "c_module_name module_name =
     ''module_'' @ concat (map (\<lambda>c. if c = CHR ''.'' then ''__dot__'' else [c]) module_name)"

definition ModuleIR_init ::
  "string list \<Rightarrow> (string \<times> string) list \<Rightarrow> FuncIR list \<Rightarrow> ClassIR list \<Rightarrow> ModuleIR" where
  "ModuleIR_init imps literals fns cls =
     \<lparr> mod_imports = (if ''builtins'' \<notin> set imps then ''builtins'' # imps else imps),
       mod_unicode_literals = literals, mod_functions = fns, mod_classes = cls \<rparr>"

section \<open>Environment (ops.py)\<close>

text \<open>
  A surface variable is a \<^verbatim>\<open>mypy.nodes.Var\<close> object: a dict key by object identity (the
  number), with a name. \<^verbatim>\<open>add_local\<close> tests its argument with \<^verbatim>\<open>isinstance\<close>, so the
  argument is any object: a \<^verbatim>\<open>Var\<close> or something else.
\<close>

datatype Var = Var nat string

fun var_name :: "Var \<Rightarrow> string" where
  "var_name (Var ident name) = name"

datatype PyObject = VarObject Var | OtherObject

text \<open>
  The four dicts of an \<^verbatim>\<open>Environment\<close> are association lists in insertion order, written
  with \<open>AList.update\<close> (a new key is appended, an old key keeps its place), so that
  \<^verbatim>\<open>len(self.names)\<close> is the length of the list.
\<close>

record Environment =
  indexes :: "(Register \<times> int) list"
  names :: "(Register \<times> string) list"
  types :: "(Register \<times> RType) list"
  symtable :: "(Var \<times> Register) list"
  temp_index :: int

definition Environment_init :: Environment where
  "Environment_init = \<lparr> indexes = [], names = [], types = [], symtable = [], temp_index = 0 \<rparr>"

text \<open>\<^verbatim>\<open>Environment.add\<close>: the index is the number of names before the insertion.\<close>

definition env_add :: "Register \<Rightarrow> string \<Rightarrow> RType \<Rightarrow> Environment \<Rightarrow> Environment" where
  "env_add r name typ env =
     env\<lparr> indexes := AList.update r (int (length (names env))) (indexes env),
          names := AList.update r name (names env),
          types := AList.update r typ (types env) \<rparr>"

text \<open>
  \<^verbatim>\<open>Environment.add_local\<close>: its only assertion is \<^verbatim>\<open>isinstance(var, Var)\<close>. The result
  is the returned register and the updated environment.
\<close>

fun add_local :: "PyObject \<Rightarrow> RType \<Rightarrow> Environment \<Rightarrow> error + (Register \<times> Environment)" where
  "add_local OtherObject typ env = Inl AssertionError"
| "add_local (VarObject var) typ env =
     (let r = CRegister (int (length (names env)));
          env1 = env\<lparr> symtable := AList.update var r (symtable env) \<rparr>
      in Inr (r, env_add r (var_name var) typ env1))"

text \<open>\<^verbatim>\<open>Environment.lookup\<close>: a subscript, so an unbound variable is a \<^verbatim>\<open>KeyError\<close>.\<close>

definition lookup :: "Var \<Rightarrow> Environment \<Rightarrow> error + Register" where
  "lookup var env = (case map_of (symtable env) var of None \<Rightarrow> Inl KeyError | Some r \<Rightarrow> Inr r)"

section \<open>Emission of an error value (emitfunc.py)\<close>

text \<open>
  \<^verbatim>\<open>EmitterInterface\<close> (ops.py) is abstract, and the \<^verbatim>\<open>Emitter\<close> that implements it is not
  in the sources: its three methods that \<^verbatim>\<open>visit_load_error_value\<close> calls are the fields
  of a record, over any emitter state \<open>'e\<close>.
\<close>

record 'e EmitterInterface =
  reg :: "Register \<Rightarrow> string"
  temp_name :: "'e \<Rightarrow> string \<times> 'e"
  emit_line :: "string \<Rightarrow> 'e \<Rightarrow> 'e"

text \<open>\<^verbatim>\<open>sep.join(xs)\<close>.\<close>

fun join :: "string \<Rightarrow> string list \<Rightarrow> string" where
  "join sep [] = []"
| "join sep [x] = x"
| "join sep (x # y # ys) = x @ sep @ join sep (y # ys)"

text \<open>
  The list comprehension \<^verbatim>\<open>[item.c_undefined_value() for item in op.rtype.types]\<close> over
  the items: the first item that raises ends it.
\<close>

fun c_undefined_values :: "(RType \<Rightarrow> error + string) \<Rightarrow> RType list \<Rightarrow> error + string list" where
  "c_undefined_values absent [] = Inr []"
| "c_undefined_values absent (t # ts) =
     (case c_undefined_value absent t of
        Inl e \<Rightarrow> Inl e
      | Inr v \<Rightarrow> (case c_undefined_values absent ts of
                    Inl e \<Rightarrow> Inl e
                  | Inr vs \<Rightarrow> Inr (v # vs)))"

text \<open>
  \<^verbatim>\<open>FunctionEmitterVisitor.visit_load_error_value\<close>. Its first step reads \<^verbatim>\<open>op.rtype\<close>
  for the \<^verbatim>\<open>isinstance\<close> test. In the tuple branch the values are computed first, then
  the temporary is named, then the two lines are emitted.
\<close>

definition visit_load_error_value ::
  "'e EmitterInterface \<Rightarrow> (RType \<Rightarrow> error + string) \<Rightarrow> (RType list \<Rightarrow> string)
   \<Rightarrow> LoadErrorValue \<Rightarrow> 'e \<Rightarrow> error + 'e" where
  "visit_load_error_value emitter absent unique_id operation e =
     (case LoadErrorValue_rtype operation of
        Inl err \<Rightarrow> Inl err
      | Inr (RTuple ts) \<Rightarrow>
          (case c_undefined_values absent ts of
             Inl err \<Rightarrow> Inl err
           | Inr values \<Rightarrow>
               (let (tmp, e1) = temp_name emitter e;
                    e2 = emit_line emitter
                           (rtuple_ctype unique_id ts @ '' '' @ tmp @ '' = { ''
                            @ join '', '' values @ '' };'') e1
                in Inr (emit_line emitter
                          (reg emitter (LoadErrorValue_dest operation)
                           @ '' = '' @ tmp @ '';'') e2)))
      | Inr t \<Rightarrow>
          (case c_error_value absent t of
             Inl err \<Rightarrow> Inl err
           | Inr v \<Rightarrow>
               Inr (emit_line emitter
                      (reg emitter (LoadErrorValue_dest operation) @ '' = '' @ v @ '';'') e)))"

section \<open>Module assembly (emitmodule.py)\<close>

text \<open>
  \<^verbatim>\<open>HeaderDeclaration\<close> is declared in emit.py, which is not in the sources; the record has
  the two attributes that emitmodule.py reads and builds. \<^verbatim>\<open>dependencies\<close> is a Python
  set of names: the list is the order in which the \<^verbatim>\<open>for\<close> loop meets its elements.
\<close>

record HeaderDeclaration =
  dependencies :: "string list"
  body :: "string list"

text \<open>
  \<^verbatim>\<open>MarkedDeclaration\<close>: the attribute \<^verbatim>\<open>declaration\<close> is the field
  \<open>header_declaration\<close>.
\<close>

record MarkedDeclaration =
  header_declaration :: HeaderDeclaration
  mark :: bool

text \<open>\<^verbatim>\<open>MarkedDeclaration.__init__\<close> stores \<^verbatim>\<open>False\<close> whatever mark it is given.\<close>

definition MarkedDeclaration_init :: "HeaderDeclaration \<Rightarrow> bool \<Rightarrow> MarkedDeclaration" where
  "MarkedDeclaration_init d m = \<lparr> header_declaration = d, mark = False \<rparr>"

text \<open>
  The two local variables of \<^verbatim>\<open>toposort_declarations\<close> that the nested function
  \<^verbatim>\<open>_toposort_visit\<close> reads and writes.
\<close>

record toposort_state =
  marked_declarations :: "(string \<times> MarkedDeclaration) list"
  result :: "HeaderDeclaration list"

text \<open>
  \<^verbatim>\<open>_toposort_visit\<close> calls itself for every dependency before it marks the declaration,
  so on a cyclic graph it never returns. The first argument bounds the depth of the
  recursion: \<open>None\<close> is a recursion deeper than that. A dependency that is no key of
  the dict is a \<^verbatim>\<open>KeyError\<close>.
\<close>

fun toposort_visit :: "nat \<Rightarrow> string \<Rightarrow> toposort_state \<Rightarrow> (error + toposort_state) option"
and toposort_visit_children ::
  "nat \<Rightarrow> string list \<Rightarrow> toposort_state \<Rightarrow> (error + toposort_state) option" where
  "toposort_visit 0 name st = None"
| "toposort_visit (Suc n) name st =
     (case map_of (marked_declarations st) name of
        None \<Rightarrow> Some (Inl KeyError)
      | Some decl \<Rightarrow>
          if mark decl then Some (Inr st)
          else (case toposort_visit_children n (dependencies (header_declaration decl)) st of
                  None \<Rightarrow> None
                | Some (Inl e) \<Rightarrow> Some (Inl e)
                | Some (Inr st') \<Rightarrow>
                    Some (Inr (st'\<lparr> result := result st' @ [header_declaration decl],
                                    marked_declarations :=
                                      AList.update name (decl\<lparr> mark := True \<rparr>)
                                        (marked_declarations st') \<rparr>))))"
| "toposort_visit_children n [] st = Some (Inr st)"
| "toposort_visit_children n (child # children) st =
     (case toposort_visit n child st of
        None \<Rightarrow> None
      | Some (Inl e) \<Rightarrow> Some (Inl e)
      | Some (Inr st') \<Rightarrow> toposort_visit_children n children st')"

text \<open>The final loop of \<^verbatim>\<open>toposort_declarations\<close>, over the keys of the dict.\<close>

fun toposort_visit_all ::
  "nat \<Rightarrow> string list \<Rightarrow> toposort_state \<Rightarrow> (error + toposort_state) option" where
  "toposort_visit_all n [] st = Some (Inr st)"
| "toposort_visit_all n (name # rest) st =
     (case toposort_visit n name st of
        None \<Rightarrow> None
      | Some (Inl e) \<Rightarrow> Some (Inl e)
      | Some (Inr st') \<Rightarrow> toposort_visit_all n rest st')"

text \<open>
  \<^verbatim>\<open>ModuleGenerator.toposort_declarations\<close> over \<^verbatim>\<open>self.context.declarations\<close>, an
  ordered dict from names to declarations.
\<close>

definition toposort_declarations ::
  "nat \<Rightarrow> (string \<times> HeaderDeclaration) list \<Rightarrow> (error + HeaderDeclaration list) option" where
  "toposort_declarations n declarations =
     (let marked = map (\<lambda>(k, v). (k, MarkedDeclaration_init v False)) declarations
      in case toposort_visit_all n (map fst marked)
                \<lparr> marked_declarations = marked, result = [] \<rparr> of
           None \<Rightarrow> None
         | Some (Inl e) \<Rightarrow> Some (Inl e)
         | Some (Inr st) \<Rightarrow> Some (Inr (result st)))"

text \<open>The dependency relation of a declaration dict: \<open>(y, x)\<close> when \<open>x\<close> lists \<open>y\<close>.\<close>

definition depends_on :: "(string \<times> HeaderDeclaration) list \<Rightarrow> (string \<times> string) set" where
  "depends_on declarations =
     {(y, x). \<exists>d. map_of declarations x = Some d \<and> y \<in> set (dependencies d)}"

text \<open>
  The \<^verbatim>\<open>Emitter\<close> of emit.py is not in the sources. \<^verbatim>\<open>generate_module_def\<close> calls its
  \<^verbatim>\<open>emit_line\<close> and \<^verbatim>\<open>emit_lines\<close> and the \<^verbatim>\<open>private_name\<close> of its \<^verbatim>\<open>names\<close>: two
  more fields, over the same emitter state. \<^verbatim>\<open>emit_line()\<close> without an argument is
  \<open>emit_line\<close> of the empty string. \<^verbatim>\<open>PREFIX\<close> of mypyc.common is a parameter too.
\<close>

record 'e Emitter = "'e EmitterInterface" +
  emit_lines :: "string list \<Rightarrow> 'e \<Rightarrow> 'e"
  private_name :: "string \<Rightarrow> string"

text \<open>
  What \<^verbatim>\<open>generate_module_def\<close> and \<^verbatim>\<open>encode_as_c_string\<close> use of Python itself: \<^verbatim>\<open>str\<close>
  of an \<^verbatim>\<open>int\<close>, of a \<^verbatim>\<open>float\<close> and of a \<^verbatim>\<open>bytes\<close>, and the UTF-8 encoding of a
  string.
\<close>

record 'f PyBuiltins =
  str_int :: "int \<Rightarrow> string"
  str_float :: "'f \<Rightarrow> string"
  str_bytes :: "string \<Rightarrow> string"
  encode_utf8 :: "string \<Rightarrow> string"

text \<open>The double quote, and \<^verbatim>\<open>encode_as_c_string\<close>; the slice \<^verbatim>\<open>[2:-1]\<close> is \<open>butlast (drop 2 r)\<close>.\<close>

definition dq :: string where
  "dq = [CHR 0x22]"

definition encode_as_c_string :: "'f PyBuiltins \<Rightarrow> string \<Rightarrow> string \<times> nat" where
  "encode_as_c_string py s =
     (let b = encode_utf8 py s;
          escaped = concat (map (\<lambda>c. if c = CHR 0x22 then [CHR 0x5C, CHR 0x22] else [c])
                              (butlast (drop 2 (str_bytes py b))))
      in (dq @ escaped @ dq, length b))"

text \<open>
  The declaration of the module init function in \<^verbatim>\<open>generate_module_def\<close>: the format is
  chosen by \<^verbatim>\<open>len(self.modules) == 1\<close> and filled with the module name.
\<close>

definition module_init_declaration :: "(string \<times> ModuleIR) list \<Rightarrow> string \<Rightarrow> string" where
  "module_init_declaration modules module_name =
     (if length modules = 1 then ''PyMODINIT_FUNC PyInit_'' @ module_name @ ''(void)''
      else ''PyObject *x_PyInit_'' @ module_name @ ''(void)'')"

text \<open>
  The loops of \<^verbatim>\<open>generate_module_def\<close>. A loop that can raise returns the emitter state
  it has reached and the error, \<open>None\<close> when it has run to its end.

  The loop over \<^verbatim>\<open>module.functions\<close>: the arguments of \<^verbatim>\<open>format\<close> are evaluated before
  the line is emitted, and \<^verbatim>\<open>fn.cname(emitter.names)\<close> calls the string \<^verbatim>\<open>fn.cname\<close>.
\<close>

fun method_table_entries ::
  "'e Emitter \<Rightarrow> string \<Rightarrow> FuncIR list \<Rightarrow> 'e \<Rightarrow> 'e \<times> error option" where
  "method_table_entries emitter PREFIX [] e = (e, None)"
| "method_table_entries emitter PREFIX (fn # fns) e =
     (case call_str_object (fn_cname fn) of
        Inl err \<Rightarrow> (e, Some err)
      | Inr cname \<Rightarrow>
          method_table_entries emitter PREFIX fns
            (emit_line emitter
               (''{'' @ dq @ fn_name fn @ dq @ '', (PyCFunction)'' @ PREFIX @ cname
                @ '', METH_VARARGS | METH_KEYWORDS, NULL /* docstring */},'') e))"

text \<open>The first loop over \<^verbatim>\<open>module.classes\<close>.\<close>

fun type_ready_section :: "'e Emitter \<Rightarrow> ClassIR list \<Rightarrow> 'e \<Rightarrow> 'e" where
  "type_ready_section emitter [] e = e"
| "type_ready_section emitter (cl # cls) e =
     type_ready_section emitter cls
       (emit_lines emitter
          [''if (PyType_Ready(&'' @ type_struct cl @ '') < 0)'', ''    return NULL;''] e)"

text \<open>\<^verbatim>\<open>generate_imports_init_section\<close>.\<close>

fun generate_imports_init_section :: "'e Emitter \<Rightarrow> string list \<Rightarrow> 'e \<Rightarrow> 'e" where
  "generate_imports_init_section emitter [] e = e"
| "generate_imports_init_section emitter (imp # imps) e =
     generate_imports_init_section emitter imps
       (emit_line emitter ''    return NULL;''
          (emit_line emitter (''if ('' @ c_module_name imp @ '' == NULL)'')
             (emit_line emitter
                (c_module_name imp @ '' = PyImport_ImportModule('' @ dq @ imp @ dq @ '');'')
                e)))"

text \<open>
  The loop over \<^verbatim>\<open>module.literals.items()\<close>, with its \<^verbatim>\<open>isinstance\<close> tests in their
  order and the \<^verbatim>\<open>assert False\<close> of the last branch.
\<close>

fun emit_literals ::
  "'e Emitter \<Rightarrow> 'f PyBuiltins \<Rightarrow> ('f Literal \<times> string) list \<Rightarrow> 'e \<Rightarrow> 'e \<times> error option" where
  "emit_literals emitter py [] e = (e, None)"
| "emit_literals emitter py ((IntLiteral i, symbol) # rest) e =
     emit_literals emitter py rest
       (emit_lines emitter
          [symbol @ '' = PyLong_FromString('' @ dq @ str_int py i @ dq @ '', NULL, 10);''] e)"
| "emit_literals emitter py ((FloatLiteral x, symbol) # rest) e =
     emit_literals emitter py rest
       (emit_lines emitter [symbol @ '' = PyFloat_FromDouble('' @ str_float py x @ '');''] e)"
| "emit_literals emitter py ((StrLiteral str, symbol) # rest) e =
     emit_literals emitter py rest
       (emit_lines emitter
          [symbol @ '' = PyUnicode_FromStringAndSize('' @ fst (encode_as_c_string py str)
             @ '', '' @ str_int py (int (snd (encode_as_c_string py str))) @ '');'',
           ''if ('' @ symbol @ '' == NULL)'',
           ''    return NULL;''] e)"
| "emit_literals emitter py ((OtherLiteral, symbol) # rest) e = (e, Some AssertionError)"

text \<open>The second loop over \<^verbatim>\<open>module.classes\<close>.\<close>

fun add_class_objects :: "'e Emitter \<Rightarrow> ClassIR list \<Rightarrow> 'e \<Rightarrow> 'e" where
  "add_class_objects emitter [] e = e"
| "add_class_objects emitter (cl # cls) e =
     add_class_objects emitter cls
       (emit_lines emitter
          [''Py_INCREF(&'' @ type_struct cl @ '');'',
           ''PyModule_AddObject(m, '' @ dq @ cl_name cl @ dq @ '', (PyObject *)&''
             @ type_struct cl @ '');''] e)"

text \<open>
  \<^verbatim>\<open>ModuleGenerator.generate_module_def\<close>, statement by statement; \<open>modules\<close> is
  \<^verbatim>\<open>self.modules\<close>. The result is the state of the emitter when the method ends and the
  error that ended it, \<open>None\<close> when it returns.
\<close>

definition generate_module_def ::
  "'e Emitter \<Rightarrow> string \<Rightarrow> 'f PyBuiltins \<Rightarrow> (string \<times> ModuleIR) list \<Rightarrow> string \<Rightarrow> ModuleIR
   \<Rightarrow> 'e \<Rightarrow> 'e \<times> error option" where
  "generate_module_def emitter PREFIX py modules module_name module e =
     (let module_prefix = private_name emitter module_name;
          e1 = emit_line emitter
                 (''static PyMethodDef '' @ module_prefix @ ''module_methods[] = {'') e
      in case method_table_entries emitter PREFIX (mod_functions module) e1 of
           (e2, Some err) \<Rightarrow> (e2, Some err)
         | (e2, None) \<Rightarrow>
             (let e3 = emit_line emitter ''{NULL, NULL, 0, NULL}'' e2;
                  e4 = emit_line emitter ''};'' e3;
                  e5 = emit_line emitter [] e4;
                  e6 = emit_lines emitter
                         [''static struct PyModuleDef '' @ module_prefix @ ''module = {'',
                          ''PyModuleDef_HEAD_INIT,'',
                          dq @ module_name @ dq @ '','',
                          ''NULL, /* docstring */'',
                          ''-1,       /* size of per-interpreter state of the module,'',
                          ''             or -1 if the module keeps state in global variables. */'',
                          module_prefix @ ''module_methods'',
                          ''};''] e5;
                  e7 = emit_line emitter [] e6;
                  e8 = emit_lines emitter
                         [module_init_declaration modules module_name, ''{'', ''PyObject *m;'']
                         e7;
                  e9 = type_ready_section emitter (mod_classes module) e8;
                  e10 = emit_lines emitter
                          [''m = PyModule_Create(&'' @ module_prefix @ ''module);'',
                           ''if (m == NULL)'',
                           ''    return NULL;''] e9;
                  e11 = emit_lines emitter
                          [''_globals = PyModule_GetDict(m);'',
                           ''if (_globals == NULL)'',
                           ''    return NULL;''] e10;
                  e12 = generate_imports_init_section emitter (mod_imports module) e11
              in case ModuleIR_literals module of
                   Inl err \<Rightarrow> (e12, Some err)
                 | Inr literals \<Rightarrow>
                     (case emit_literals emitter py literals e12 of
                        (e13, Some err) \<Rightarrow> (e13, Some err)
                      | (e13, None) \<Rightarrow>
                          (let e14 = add_class_objects emitter (mod_classes module) e13;
                               e15 = emit_line emitter ''return m;'' e14
                           in (emit_line emitter ''}'' e15, None)))))"

section \<open>Predicates and sample inputs of the theorems\<close>

text \<open>
  The slot registers of an environment are all below the number of its names. This
  holds of the empty environment and \<^verbatim>\<open>add_local\<close> keeps it.
\<close>

definition slots_below_length :: "Environment \<Rightarrow> bool" where
  "slots_below_length env =
     (\<forall>k. CRegister k \<in> fst ` set (names env) \<longrightarrow> k < int (length (names env)))"

text \<open>
  An emitter to run \<^verbatim>\<open>visit_load_error_value\<close> on: its state is the list of the lines
  emitted so far. With it, a sentinel for the two classes that ops.py does not declare
  and an identifier for tuple structs.
\<close>

definition example_emitter :: "(string list) EmitterInterface" where
  "example_emitter =
     \<lparr> reg = (\<lambda>r. ''cpy_r_r0''),
       temp_name = (\<lambda>e. (''__tmp1'', e)),
       emit_line = (\<lambda>l e. e @ [l]) \<rparr>"

definition example_absent :: "RType \<Rightarrow> error + string" where
  "example_absent t = Inr ''NULL''"

definition example_unique_id :: "RType list \<Rightarrow> string" where
  "example_unique_id ts = ''1''"

text \<open>
  An emitter to run \<^verbatim>\<open>generate_module_def\<close> on, with a prefix for the wrappers and
  renderings of Python's values.
\<close>

definition example_module_emitter :: "(string list) Emitter" where
  "example_module_emitter =
     \<lparr> reg = (\<lambda>r. ''cpy_r_r0''),
       temp_name = (\<lambda>e. (''__tmp1'', e)),
       emit_line = (\<lambda>l e. e @ [l]),
       emit_lines = (\<lambda>ls e. e @ ls),
       private_name = (\<lambda>name. name @ ''_'') \<rparr>"

definition example_PREFIX :: string where
  "example_PREFIX = ''CPyPy_''"

definition example_builtins :: "unit PyBuiltins" where
  "example_builtins =
     \<lparr> str_int = (\<lambda>i. ''0''), str_float = (\<lambda>x. ''0.0''),
       str_bytes = (\<lambda>b. ''b'' @ [CHR 0x27] @ b @ [CHR 0x27]),
       encode_utf8 = (\<lambda>s. s) \<rparr>"

text \<open>The class of the scenario: attributes \<^verbatim>\<open>[a: int, b: str]\<close>, methods \<^verbatim>\<open>[f, g]\<close>.\<close>

definition example_class :: ClassIR where
  "example_class =
     \<lparr> cl_name = ''C'',
       attributes = [(''a'', int_rprimitive), (''b'', str_rprimitive)],
       methods = [FuncIR_init ''f'' (Some ''C'') [] int_rprimitive,
                  FuncIR_init ''g'' (Some ''C'') [] int_rprimitive] \<rparr>"

text \<open>
  The invariant of the depth-first visit, for the proofs: \<open>ord\<close> lists the names marked
  so far in the order of their marking. The marks of the dict are exactly the names of
  \<open>ord\<close>, the result holds their declarations in that order, no name occurs twice, and
  every dependency of a name of \<open>ord\<close> stands before it.
\<close>

definition toposort_inv ::
  "(string \<times> HeaderDeclaration) list \<Rightarrow> toposort_state \<Rightarrow> string list \<Rightarrow> bool" where
  "toposort_inv decls st ord =
     ((\<forall>x. map_of (marked_declarations st) x
            = map_option (\<lambda>d. \<lparr> header_declaration = d, mark = (x \<in> set ord) \<rparr>)
                (map_of decls x))
      \<and> result st = map (\<lambda>x. the (map_of decls x)) ord
      \<and> distinct ord
      \<and> set ord \<subseteq> fst ` set decls
      \<and> (\<forall>i<length ord. \<forall>y\<in>set (dependencies (the (map_of decls (ord ! i)))).
            \<exists>j<i. ord ! j = y))"

text \<open>
  The diamond of the scenario: \<^verbatim>\<open>X\<close> depends on \<^verbatim>\<open>Y\<close> and \<^verbatim>\<open>Z\<close>, which both depend
  on \<^verbatim>\<open>W\<close>.
\<close>

definition diamond :: "(string \<times> HeaderDeclaration) list" where
  "diamond =
     [(''X'', \<lparr> dependencies = [''Y'', ''Z''], body = [''struct X;''] \<rparr>),
      (''Y'', \<lparr> dependencies = [''W''], body = [''struct Y;''] \<rparr>),
      (''Z'', \<lparr> dependencies = [''W''], body = [''struct Z;''] \<rparr>),
      (''W'', \<lparr> dependencies = [], body = [''struct W;''] \<rparr>)]"

section \<open>A canonical form of runtime types\<close>

text \<open>
  A device of the proofs, not a part of the program: the canonical form keeps what
  \<^verbatim>\<open>is_same_type\<close> compares (the name of a primitive or an instance, the items of a
  tuple in order, the items of a union as a multiset), so that two types are the same
  exactly when their canonical forms are equal.
\<close>

datatype NType =
    NPrim string
  | NTuple "NType list"
  | NInst string
  | NOpt NType
  | NUnion "NType multiset"
  | NVoid

fun canon :: "RType \<Rightarrow> NType" where
  "canon (RPrimitive n u r ct cu) = NPrim n"
| "canon (RTuple ts) = NTuple (map canon ts)"
| "canon (RInstance n) = NInst n"
| "canon (ROptional v) = NOpt (canon v)"
| "canon (RUnion ts) = NUnion (mset (map canon ts))"
| "canon RVoid = NVoid"

section \<open>Type equality is an equivalence (sametype.py)\<close>

lemma remove_first_match_None:
  "(remove_first_match p ys = None) = (\<forall>y\<in>set ys. \<not> p y)"
  by (induction ys) auto

lemma remove_first_match_Some:
  "remove_first_match p ys = Some zs \<Longrightarrow> \<exists>y. p y \<and> mset ys = add_mset y (mset zs)"
proof (induction ys arbitrary: zs)
  case Nil
  then show ?case by simp
next
  case (Cons y ys)
  show ?case
  proof (cases "p y")
    case True
    with Cons.prems show ?thesis by auto
  next
    case False
    with Cons.prems obtain zs' where z: "remove_first_match p ys = Some zs'" "zs = y # zs'"
      by auto
    from Cons.IH[OF z(1)] obtain w where "p w" "mset ys = add_mset w (mset zs')" by blast
    then show ?thesis using z(2) by auto
  qed
qed

lemma union_items_match_canon:
  assumes "\<And>x y. x \<in> set ls \<Longrightarrow> same x y = (f x = f y)"
  shows "union_items_match same ls rs = (mset (map f ls) = mset (map f rs))"
  using assms
proof (induction ls arbitrary: rs)
  case Nil
  then show ?case by auto
next
  case (Cons l ls)
  have same_l: "\<And>y. same l y = (f l = f y)" using Cons.prems by simp
  show ?case
  proof (cases "remove_first_match (same l) rs")
    case None
    then have "\<forall>y\<in>set rs. f l \<noteq> f y"
      by (simp add: remove_first_match_None same_l)
    then have "f l \<notin># mset (map f rs)" by auto
    moreover have "f l \<in># mset (map f (l # ls))" by simp
    ultimately have "mset (map f (l # ls)) \<noteq> mset (map f rs)" by metis
    then show ?thesis using None by simp
  next
    case (Some rs')
    from remove_first_match_Some[OF Some] obtain y
      where y: "same l y" "mset rs = add_mset y (mset rs')" by blast
    have fy: "f y = f l" using y(1) same_l by simp
    have "mset (map f rs) = image_mset f (mset rs)" by simp
    also have "\<dots> = add_mset (f l) (mset (map f rs'))" using y(2) fy by simp
    finally have m: "mset (map f rs) = add_mset (f l) (mset (map f rs'))" .
    have IH: "union_items_match same ls rs' = (mset (map f ls) = mset (map f rs'))"
      using Cons.IH Cons.prems by simp
    show ?thesis using Some IH m by simp
  qed
qed

lemma tuple_items_canon:
  assumes "\<And>x y. x \<in> set ls \<Longrightarrow> same x y = (f x = f y)"
  shows "(length rs = length ls \<and> list_all (\<lambda>(t1, t2). same t1 t2) (zip ls rs))
         = (map f ls = map f rs)"
  using assms
proof (induction ls arbitrary: rs)
  case Nil
  then show ?case by auto
next
  case (Cons l ls)
  then show ?case by (cases rs) auto
qed

lemma is_same_type_canon: "is_same_type a b = (canon a = canon b)"
proof (induction a arbitrary: b)
  case (RPrimitive n u r ct cu)
  then show ?case by (cases b) auto
next
  case (RTuple ts)
  show ?case
  proof (cases b)
    case (RTuple rs)
    then show ?thesis
      using tuple_items_canon[of ts is_same_type canon rs] RTuple.IH by simp
  qed auto
next
  case (RInstance n)
  then show ?case by (cases b) auto
next
  case (ROptional v)
  then show ?case by (cases b) auto
next
  case (RUnion ts)
  show ?case
  proof (cases b)
    case (RUnion rs)
    then show ?thesis
      using union_items_match_canon[of ts is_same_type canon rs] RUnion.IH by simp
  qed auto
next
  case RVoid
  then show ?case by (cases b) auto
qed

lemma variant_canon: "canon a = canon b \<Longrightarrow> variant_of a = variant_of b"
  by (cases a; cases b) auto

lemma list_all_zip_nth:
  "length xs = length ys \<Longrightarrow>
   list_all (\<lambda>(x, y). P x y) (zip xs ys) = (\<forall>i<length xs. P (xs ! i) (ys ! i))"
  by (simp add: list_all_length)

text \<open>
  Claim C4. For all runtime types \<open>a\<close> and \<open>b\<close>: \<^verbatim>\<open>is_same_type(a, a)\<close> is true,
  \<^verbatim>\<open>is_same_type(a, b)\<close> equals \<^verbatim>\<open>is_same_type(b, a)\<close>, and two types of different
  classes are never the same type, whatever their names.
\<close>

theorem is_same_type_equivalence:
  "is_same_type a a
   \<and> is_same_type a b = is_same_type b a
   \<and> (variant_of a \<noteq> variant_of b \<longrightarrow> \<not> is_same_type a b)"
  using variant_canon[of a b] by (auto simp: is_same_type_canon)

theorem is_same_type_equivalence_witness:
  "is_same_type (RPrimitive ''tuple'' False True ''PyObject *'' ''NULL'')
                (RPrimitive ''tuple'' False True ''PyObject *'' ''NULL'')
   \<and> variant_of (RPrimitive ''tuple'' False True ''PyObject *'' ''NULL'') \<noteq> variant_of (RTuple [])
   \<and> \<not> is_same_type (RPrimitive ''tuple'' False True ''PyObject *'' ''NULL'') (RTuple [])
   \<and> \<not> is_same_type (RTuple []) (RPrimitive ''tuple'' False True ''PyObject *'' ''NULL'')"
  using is_same_type_equivalence[of "RPrimitive ''tuple'' False True ''PyObject *'' ''NULL''" "RTuple []"]
  by simp

text \<open>
  Claim C5. Two fixed-length tuple types are the same type exactly when they have the
  same arity and the element types are pairwise the same, position by position; when
  they are the same, replacing one element of the second by a type that differs from
  it, or giving the second another arity, makes them different.
\<close>

theorem is_same_type_rtuple:
  "is_same_type (RTuple ts1) (RTuple ts2)
     = (length ts1 = length ts2 \<and> (\<forall>i<length ts1. is_same_type (ts1 ! i) (ts2 ! i)))
   \<and> (is_same_type (RTuple ts1) (RTuple ts2) \<and> i < length ts2 \<and> \<not> is_same_type (ts2 ! i) u
        \<longrightarrow> \<not> is_same_type (RTuple ts1) (RTuple (ts2[i := u])))
   \<and> (is_same_type (RTuple ts1) (RTuple ts2) \<and> length ts3 \<noteq> length ts2
        \<longrightarrow> \<not> is_same_type (RTuple ts1) (RTuple ts3))"
proof (intro conjI impI)
  show "is_same_type (RTuple ts1) (RTuple ts2)
     = (length ts1 = length ts2 \<and> (\<forall>i<length ts1. is_same_type (ts1 ! i) (ts2 ! i)))"
    by (auto simp: list_all_zip_nth)
next
  assume a: "is_same_type (RTuple ts1) (RTuple ts2) \<and> i < length ts2
             \<and> \<not> is_same_type (ts2 ! i) u"
  then have m: "map canon ts1 = map canon ts2" by (simp add: is_same_type_canon)
  then have len: "length ts1 = length ts2" by (rule map_eq_imp_length_eq)
  have "canon (ts1 ! i) = canon (ts2 ! i)"
    using m a len by (metis nth_map)
  moreover have "canon (ts2 ! i) \<noteq> canon u" using a by (simp add: is_same_type_canon)
  ultimately have "canon (ts1 ! i) \<noteq> canon (ts2[i := u] ! i)" using a by simp
  then have "map canon ts1 \<noteq> map canon (ts2[i := u])"
    using a len by (metis length_list_update nth_map)
  then show "\<not> is_same_type (RTuple ts1) (RTuple (ts2[i := u]))"
    by (simp add: is_same_type_canon)
next
  assume a: "is_same_type (RTuple ts1) (RTuple ts2) \<and> length ts3 \<noteq> length ts2"
  then show "\<not> is_same_type (RTuple ts1) (RTuple ts3)" by auto
qed

theorem is_same_type_rtuple_witness:
  "is_same_type (RTuple [int_rprimitive, bool_rprimitive]) (RTuple [int_rprimitive, bool_rprimitive])
   \<and> \<not> is_same_type (RTuple [int_rprimitive, bool_rprimitive])
                      (RTuple [int_rprimitive, str_rprimitive])
   \<and> \<not> is_same_type (RTuple [int_rprimitive, bool_rprimitive]) (RTuple [int_rprimitive])
   \<and> \<not> is_same_type (RTuple [int_rprimitive, bool_rprimitive])
                      (RTuple [bool_rprimitive, int_rprimitive])"
  using is_same_type_rtuple[of "[int_rprimitive, bool_rprimitive]"
          "[int_rprimitive, bool_rprimitive]" 1 str_rprimitive "[int_rprimitive]"]
  by (simp add: int_rprimitive_def bool_rprimitive_def str_rprimitive_def)

section \<open>Signature comparison (sametype.py)\<close>

text \<open>
  Claim C2, as stated, at a concrete input: two method signatures that differ only in
  the name of the argument after the receiver. The comparison worded by the
  specification accepts them; \<^verbatim>\<open>is_same_method_signature\<close> rejects them, because it
  tests \<^verbatim>\<open>t1.name == t2.name\<close> on every pair it compares.
\<close>

theorem method_signature_names_counterexample:
  "spec_is_same_method_signature
     \<lparr> sig_args = [\<lparr> arg_name = ''self'', arg_type = object_rprimitive \<rparr>,
                   \<lparr> arg_name = ''x'', arg_type = int_rprimitive \<rparr>],
       sig_ret_type = int_rprimitive \<rparr>
     \<lparr> sig_args = [\<lparr> arg_name = ''self'', arg_type = object_rprimitive \<rparr>,
                   \<lparr> arg_name = ''y'', arg_type = int_rprimitive \<rparr>],
       sig_ret_type = int_rprimitive \<rparr>
   \<and> \<not> is_same_method_signature
     \<lparr> sig_args = [\<lparr> arg_name = ''self'', arg_type = object_rprimitive \<rparr>,
                   \<lparr> arg_name = ''x'', arg_type = int_rprimitive \<rparr>],
       sig_ret_type = int_rprimitive \<rparr>
     \<lparr> sig_args = [\<lparr> arg_name = ''self'', arg_type = object_rprimitive \<rparr>,
                   \<lparr> arg_name = ''y'', arg_type = int_rprimitive \<rparr>],
       sig_ret_type = int_rprimitive \<rparr>"
  by (simp add: spec_is_same_method_signature_def is_same_method_signature_def
        int_rprimitive_def object_rprimitive_def)

lemma list_all_zip_drop1:
  "length xs = length ys \<Longrightarrow>
   list_all (\<lambda>(x, y). P x y) (zip (drop 1 xs) (drop 1 ys))
     = (\<forall>i. 1 \<le> i \<and> i < length xs \<longrightarrow> P (xs ! i) (ys ! i))"
proof (cases xs)
  case Nil
  then show ?thesis by simp
next
  case (Cons x xs')
  assume len: "length xs = length ys"
  then obtain y ys' where ys: "ys = y # ys'" using Cons by (cases ys) auto
  have len': "length xs' = length ys'" using len Cons ys by simp
  have "(\<forall>i. 1 \<le> i \<and> i < length xs \<longrightarrow> P (xs ! i) (ys ! i))
        = (\<forall>j<length xs'. P (xs' ! j) (ys' ! j))"
  proof
    assume h: "\<forall>i. 1 \<le> i \<and> i < length xs \<longrightarrow> P (xs ! i) (ys ! i)"
    show "\<forall>j<length xs'. P (xs' ! j) (ys' ! j)"
    proof (intro allI impI)
      fix j assume "j < length xs'"
      then have "1 \<le> Suc j \<and> Suc j < length xs" using Cons by simp
      with h have "P (xs ! Suc j) (ys ! Suc j)" by blast
      then show "P (xs' ! j) (ys' ! j)" using Cons ys by simp
    qed
  next
    assume h: "\<forall>j<length xs'. P (xs' ! j) (ys' ! j)"
    show "\<forall>i. 1 \<le> i \<and> i < length xs \<longrightarrow> P (xs ! i) (ys ! i)"
    proof (intro allI impI)
      fix i assume i: "1 \<le> i \<and> i < length xs"
      then obtain j where j: "i = Suc j" by (cases i) auto
      then have "j < length xs'" using i Cons by simp
      then have "P (xs' ! j) (ys' ! j)" using h by simp
      then show "P (xs ! i) (ys ! i)" using j Cons ys by simp
    qed
  qed
  then show ?thesis using Cons ys len' by (simp add: list_all_length)
qed

text \<open>
  Claim C2, amended. Both comparisons require equal arity and the same return type.
  \<^verbatim>\<open>is_same_signature\<close> requires the same type and the same name at every position;
  \<^verbatim>\<open>is_same_method_signature\<close> requires the same type and the same name at every
  position after the first, and does not look at the first argument.
\<close>

theorem signature_comparisons:
  "is_same_signature a b
     = (length (sig_args a) = length (sig_args b)
        \<and> is_same_type (sig_ret_type a) (sig_ret_type b)
        \<and> (\<forall>i<length (sig_args a).
              is_same_type (arg_type (sig_args a ! i)) (arg_type (sig_args b ! i))
              \<and> arg_name (sig_args a ! i) = arg_name (sig_args b ! i)))
   \<and> is_same_method_signature a b
     = (length (sig_args a) = length (sig_args b)
        \<and> is_same_type (sig_ret_type a) (sig_ret_type b)
        \<and> (\<forall>i. 1 \<le> i \<and> i < length (sig_args a) \<longrightarrow>
              is_same_type (arg_type (sig_args a ! i)) (arg_type (sig_args b ! i))
              \<and> arg_name (sig_args a ! i) = arg_name (sig_args b ! i)))"
proof
  show "is_same_signature a b
     = (length (sig_args a) = length (sig_args b)
        \<and> is_same_type (sig_ret_type a) (sig_ret_type b)
        \<and> (\<forall>i<length (sig_args a).
              is_same_type (arg_type (sig_args a ! i)) (arg_type (sig_args b ! i))
              \<and> arg_name (sig_args a ! i) = arg_name (sig_args b ! i)))"
    unfolding is_same_signature_def
    using list_all_zip_nth[of "sig_args a" "sig_args b"
            "\<lambda>t1 t2. is_same_type (arg_type t1) (arg_type t2) \<and> arg_name t1 = arg_name t2"]
    by auto
next
  show "is_same_method_signature a b
     = (length (sig_args a) = length (sig_args b)
        \<and> is_same_type (sig_ret_type a) (sig_ret_type b)
        \<and> (\<forall>i. 1 \<le> i \<and> i < length (sig_args a) \<longrightarrow>
              is_same_type (arg_type (sig_args a ! i)) (arg_type (sig_args b ! i))
              \<and> arg_name (sig_args a ! i) = arg_name (sig_args b ! i)))"
    unfolding is_same_method_signature_def
    using list_all_zip_drop1[of "sig_args a" "sig_args b"
            "\<lambda>t1 t2. is_same_type (arg_type t1) (arg_type t2) \<and> arg_name t1 = arg_name t2"]
    by auto
qed

theorem signature_comparisons_witness:
  "is_same_method_signature
     \<lparr> sig_args = [\<lparr> arg_name = ''self'', arg_type = object_rprimitive \<rparr>,
                   \<lparr> arg_name = ''x'', arg_type = int_rprimitive \<rparr>],
       sig_ret_type = int_rprimitive \<rparr>
     \<lparr> sig_args = [\<lparr> arg_name = ''cls'', arg_type = str_rprimitive \<rparr>,
                   \<lparr> arg_name = ''x'', arg_type = int_rprimitive \<rparr>],
       sig_ret_type = int_rprimitive \<rparr>
   \<and> \<not> is_same_signature
     \<lparr> sig_args = [\<lparr> arg_name = ''self'', arg_type = object_rprimitive \<rparr>,
                   \<lparr> arg_name = ''x'', arg_type = int_rprimitive \<rparr>],
       sig_ret_type = int_rprimitive \<rparr>
     \<lparr> sig_args = [\<lparr> arg_name = ''cls'', arg_type = str_rprimitive \<rparr>,
                   \<lparr> arg_name = ''x'', arg_type = int_rprimitive \<rparr>],
       sig_ret_type = int_rprimitive \<rparr>"
  using signature_comparisons[of
     "\<lparr> sig_args = [\<lparr> arg_name = ''self'', arg_type = object_rprimitive \<rparr>,
                   \<lparr> arg_name = ''x'', arg_type = int_rprimitive \<rparr>],
       sig_ret_type = int_rprimitive \<rparr>"
     "\<lparr> sig_args = [\<lparr> arg_name = ''cls'', arg_type = str_rprimitive \<rparr>,
                   \<lparr> arg_name = ''x'', arg_type = int_rprimitive \<rparr>],
       sig_ret_type = int_rprimitive \<rparr>"]
  by (simp add: is_same_method_signature_def is_same_signature_def
        int_rprimitive_def object_rprimitive_def str_rprimitive_def)

section \<open>Branch inversion (ops.py)\<close>

text \<open>
  Claim C10. \<^verbatim>\<open>Branch.invert\<close> leaves \<^verbatim>\<open>left\<close>, \<^verbatim>\<open>right\<close>, \<^verbatim>\<open>op\<close>, \<^verbatim>\<open>line\<close> and
  \<^verbatim>\<open>traceback_entry\<close> unchanged, swaps the true and the false label and toggles the
  negated flag; inverting twice gives the branch back. A branch as \<^verbatim>\<open>Branch.__init__\<close>
  builds it is not negated, so one inversion gives the negated branch with its labels
  exchanged.
\<close>

theorem invert_involution:
  "left (invert b) = left b \<and> right (invert b) = right b \<and> op (invert b) = op b
   \<and> line (invert b) = line b \<and> traceback_entry (invert b) = traceback_entry b
   \<and> true (invert b) = false b \<and> false (invert b) = true b
   \<and> negated (invert b) = (\<not> negated b)
   \<and> invert (invert b) = b
   \<and> invert (Branch_init l r true_label false_label opcode ln)
       = \<lparr> line = ln, left = l, right = r, true = false_label, false = true_label,
           op = opcode, negated = True, traceback_entry = None \<rparr>"
  by (simp add: invert_def Branch_init_def)

section \<open>Imports of a module (ops.py)\<close>

text \<open>
  Claim C3, as stated, at a concrete input: the import list \<^verbatim>\<open>['os', 'builtins']\<close>
  contains \<^verbatim>\<open>'builtins'\<close>, so nothing is inserted and the first import is \<^verbatim>\<open>'os'\<close>.
\<close>

theorem ModuleIR_init_builtins_not_first:
  "mod_imports (ModuleIR_init [''os'', ''builtins''] [] [] []) = [''os'', ''builtins'']
   \<and> hd (mod_imports (ModuleIR_init [''os'', ''builtins''] [] [] [])) \<noteq> ''builtins''"
  by (simp add: ModuleIR_init_def)

text \<open>
  Claim C3, amended. The imports of a constructed \<^verbatim>\<open>ModuleIR\<close> always contain
  \<^verbatim>\<open>'builtins'\<close>: when the given list lacks it, it is inserted at position 0; when the
  given list has it, the list is kept as it is, wherever \<^verbatim>\<open>'builtins'\<close> stands. The
  other imports keep their relative order.
\<close>

theorem ModuleIR_init_imports:
  "mod_imports (ModuleIR_init imps literals fns cls)
     = (if ''builtins'' \<in> set imps then imps else ''builtins'' # imps)
   \<and> ''builtins'' \<in> set (mod_imports (ModuleIR_init imps literals fns cls))
   \<and> filter (\<lambda>x. x \<noteq> ''builtins'') (mod_imports (ModuleIR_init imps literals fns cls))
       = filter (\<lambda>x. x \<noteq> ''builtins'') imps"
  by (simp add: ModuleIR_init_def)

theorem ModuleIR_init_imports_witness:
  "mod_imports (ModuleIR_init [''os'', ''sys''] [] [] []) = [''builtins'', ''os'', ''sys'']
   \<and> mod_imports (ModuleIR_init [''os'', ''builtins'', ''sys''] [] [] [])
       = [''os'', ''builtins'', ''sys'']"
  using ModuleIR_init_imports[of "[''os'', ''sys'']" "[]" "[]" "[]"]
        ModuleIR_init_imports[of "[''os'', ''builtins'', ''sys'']" "[]" "[]" "[]"]
  by simp

section \<open>The module init function (emitmodule.py)\<close>

text \<open>
  The choice that \<^verbatim>\<open>generate_module_def\<close> makes for the declaration: the canonical
  name for one module, the internal name for any other count, and the two never
  coincide.
\<close>

lemma module_init_declaration_format:
  "module_init_declaration [m] name = ''PyMODINIT_FUNC PyInit_'' @ name @ ''(void)''"
  "length modules \<noteq> 1 \<Longrightarrow>
   module_init_declaration modules name = ''PyObject *x_PyInit_'' @ name @ ''(void)''"
  "''PyObject *x_PyInit_'' @ name @ ''(void)'' \<noteq> ''PyMODINIT_FUNC PyInit_'' @ name' @ ''(void)''"
  by (simp_all add: module_init_declaration_def)

text \<open>
  \<^verbatim>\<open>generate_module_def\<close> never returns on a \<^verbatim>\<open>ModuleIR\<close>: with a function in the module
  it raises in the method table, before the declaration of the init function; without
  one it raises at \<^verbatim>\<open>module.literals\<close>, after the declaration.
\<close>

lemma method_table_entries_raises:
  "method_table_entries emitter PREFIX fns e
     = (e, if fns = [] then None else Some TypeError)"
  by (cases fns) (simp_all add: call_str_object_def)

lemma generate_module_def_raises:
  "snd (generate_module_def emitter PREFIX py modules module_name module e)
     = Some (if mod_functions module = [] then AttributeError else TypeError)"
  by (simp add: generate_module_def_def method_table_entries_raises ModuleIR_literals_def
        Let_def)

text \<open>
  Claim C8, at a concrete input. One module \<^verbatim>\<open>a\<close> with one function \<^verbatim>\<open>f\<close> is compiled:
  \<^verbatim>\<open>generate_module_def\<close> emits the opening line of the method table and raises
  \<^verbatim>\<open>TypeError\<close> at \<^verbatim>\<open>fn.cname(emitter.names)\<close>, so no init function is declared, under
  the canonical name or another. For one module without functions the canonical
  declaration is emitted, and the method then raises \<^verbatim>\<open>AttributeError\<close> at
  \<^verbatim>\<open>module.literals\<close>.
\<close>

theorem generate_module_def_type_error:
  "generate_module_def example_module_emitter example_PREFIX example_builtins
     [(''a'', (ModuleIR_init [] [] [FuncIR_init ''f'' None [] int_rprimitive] []))] ''a''
     (ModuleIR_init [] [] [FuncIR_init ''f'' None [] int_rprimitive] []) []
     = ([''static PyMethodDef a_module_methods[] = {''], Some TypeError)
   \<and> snd (generate_module_def example_module_emitter example_PREFIX example_builtins
            [(''a'', (ModuleIR_init [] [] [] []))] ''a'' (ModuleIR_init [] [] [] []) [])
     = Some AttributeError
   \<and> ''PyMODINIT_FUNC PyInit_a(void)''
       \<in> set (fst (generate_module_def example_module_emitter example_PREFIX example_builtins
                      [(''a'', (ModuleIR_init [] [] [] []))] ''a'' (ModuleIR_init [] [] [] []) []))"
  by (simp add: generate_module_def_def ModuleIR_init_def FuncIR_init_def
        call_str_object_def ModuleIR_literals_def example_module_emitter_def
        module_init_declaration_def c_module_name_def dq_def Let_def)

section \<open>Slot indices of a class (ops.py)\<close>

lemma getter_index_loop_nth:
  "distinct (map fst attrs) \<Longrightarrow> i < length attrs \<Longrightarrow>
   getter_index_loop k attrs (fst (attrs ! i)) = Inr ((k + int i) * 2)"
proof (induction attrs arbitrary: k i)
  case Nil
  then show ?case by simp
next
  case (Cons a attrs)
  obtain attr t where a: "a = (attr, t)" by (cases a)
  show ?case
  proof (cases i)
    case 0
    then show ?thesis using a by simp
  next
    case (Suc j)
    then have j: "j < length attrs" using Cons.prems by simp
    have "fst (attrs ! j) \<in> fst ` set attrs" using j by simp
    then have ne: "attr \<noteq> fst (attrs ! j)" using Cons.prems(1) a by auto
    have "getter_index_loop (k + 1) attrs (fst (attrs ! j)) = Inr ((k + 1 + int j) * 2)"
      using Cons.IH[of j "k + 1"] Cons.prems(1) j by simp
    then show ?thesis using a Suc ne by (simp add: algebra_simps)
  qed
qed

lemma method_index_loop_nth:
  "distinct (map fn_name fns) \<Longrightarrow> j < length fns \<Longrightarrow>
   method_index_loop base k fns (fn_name (fns ! j)) = Inr (base + (k + int j))"
proof (induction fns arbitrary: k j)
  case Nil
  then show ?case by simp
next
  case (Cons f fns)
  show ?case
  proof (cases j)
    case 0
    then show ?thesis by simp
  next
    case (Suc m)
    then have m: "m < length fns" using Cons.prems by simp
    have "fn_name (fns ! m) \<in> fn_name ` set fns" using m by simp
    then have ne: "fn_name f \<noteq> fn_name (fns ! m)" using Cons.prems(1) by auto
    have "method_index_loop base (k + 1) fns (fn_name (fns ! m)) = Inr (base + (k + 1 + int m))"
      using Cons.IH[of m "k + 1"] Cons.prems(1) m by simp
    then show ?thesis using Suc ne by (simp add: algebra_simps)
  qed
qed

text \<open>
  Claim C7. In a class whose attribute names are distinct, the getter of the i-th
  attribute has index \<open>2 * i\<close> and its setter \<open>2 * i + 1\<close>; in a class whose method
  names are distinct, the j-th method has index \<open>2 * (number of attributes) + j\<close>.
  The witness is the scenario: attributes \<^verbatim>\<open>[a, b]\<close> and methods \<^verbatim>\<open>[f, g]\<close> give
  0 and 1 for \<^verbatim>\<open>a\<close>, 2 and 3 for \<^verbatim>\<open>b\<close>, 4 for \<^verbatim>\<open>f\<close> and 5 for \<^verbatim>\<open>g\<close>.
\<close>

theorem slot_indices:
  "(distinct (map fst (attributes c)) \<and> i < length (attributes c) \<longrightarrow>
      getter_index c (fst (attributes c ! i)) = Inr (2 * int i)
      \<and> setter_index c (fst (attributes c ! i)) = Inr (2 * int i + 1))
   \<and> (distinct (map fn_name (methods c)) \<and> j < length (methods c) \<longrightarrow>
      method_index c (fn_name (methods c ! j)) = Inr (2 * int (length (attributes c)) + int j))"
proof (intro conjI impI)
  assume h: "distinct (map fst (attributes c)) \<and> i < length (attributes c)"
  show g: "getter_index c (fst (attributes c ! i)) = Inr (2 * int i)"
    using getter_index_loop_nth[of "attributes c" i 0] h by (simp add: getter_index_def)
  show "setter_index c (fst (attributes c ! i)) = Inr (2 * int i + 1)"
    using g by (simp add: setter_index_def)
next
  assume h: "distinct (map fn_name (methods c)) \<and> j < length (methods c)"
  show "method_index c (fn_name (methods c ! j)) = Inr (2 * int (length (attributes c)) + int j)"
    using method_index_loop_nth[of "methods c" j "int (length (attributes c)) * 2" 0] h
    by (simp add: method_index_def)
qed

theorem slot_indices_witness:
  "getter_index example_class ''a'' = Inr 0
   \<and> setter_index example_class ''a'' = Inr 1
   \<and> getter_index example_class ''b'' = Inr 2
   \<and> setter_index example_class ''b'' = Inr 3
   \<and> method_index example_class ''f'' = Inr 4
   \<and> method_index example_class ''g'' = Inr 5"
  using slot_indices[of example_class 0 0]
    slot_indices[of example_class 1 1]
  by (simp add: example_class_def FuncIR_init_def)

section \<open>Binding a local variable (ops.py)\<close>

text \<open>
  Claim C9, as stated, at a concrete input: after \<^verbatim>\<open>add_local\<close> has bound a variable in
  the empty environment, a second \<^verbatim>\<open>add_local\<close> for the same variable does not fail: it
  returns register 1 and rebinds the variable to it.
\<close>

theorem add_local_rebinds:
  "add_local (VarObject (Var 0 ''x'')) int_rprimitive Environment_init
     = Inr (CRegister 0,
            \<lparr> indexes = [(CRegister 0, 0)], names = [(CRegister 0, ''x'')],
              types = [(CRegister 0, int_rprimitive)],
              symtable = [(Var 0 ''x'', CRegister 0)], temp_index = 0 \<rparr>)
   \<and> lookup (Var 0 ''x'')
        \<lparr> indexes = [(CRegister 0, 0)], names = [(CRegister 0, ''x'')],
          types = [(CRegister 0, int_rprimitive)],
          symtable = [(Var 0 ''x'', CRegister 0)], temp_index = 0 \<rparr> = Inr (CRegister 0)
   \<and> add_local (VarObject (Var 0 ''x'')) int_rprimitive
        \<lparr> indexes = [(CRegister 0, 0)], names = [(CRegister 0, ''x'')],
          types = [(CRegister 0, int_rprimitive)],
          symtable = [(Var 0 ''x'', CRegister 0)], temp_index = 0 \<rparr>
     = Inr (CRegister 1,
            \<lparr> indexes = [(CRegister 0, 0), (CRegister 1, 1)],
              names = [(CRegister 0, ''x''), (CRegister 1, ''x'')],
              types = [(CRegister 0, int_rprimitive), (CRegister 1, int_rprimitive)],
              symtable = [(Var 0 ''x'', CRegister 1)], temp_index = 0 \<rparr>)"
  by (simp add: Environment_init_def env_add_def lookup_def Let_def)

lemma length_update:
  "length (AList.update k v al) = (if k \<in> fst ` set al then length al else Suc (length al))"
  by (induction al) auto

lemma slots_below_length_add:
  assumes "slots_below_length env"
  shows "CRegister (int (length (names env))) \<notin> fst ` set (names env)"
    and "slots_below_length
           (env_add (CRegister (int (length (names env)))) nm typ
              (env\<lparr> symtable := st \<rparr>))"
proof -
  show fresh: "CRegister (int (length (names env))) \<notin> fst ` set (names env)"
    using assms unfolding slots_below_length_def by blast
  show "slots_below_length
           (env_add (CRegister (int (length (names env)))) nm typ
              (env\<lparr> symtable := st \<rparr>))"
    using assms fresh unfolding slots_below_length_def env_add_def
    by (auto simp: dom_update length_update)
qed

text \<open>
  Claim C9, amended. \<^verbatim>\<open>add_local\<close> fails its assertion exactly when its argument is not
  a \<^verbatim>\<open>Var\<close>. For every environment and every \<^verbatim>\<open>Var\<close>, bound or not, it returns the
  register whose number is the count of names, with the variable bound to that register
  and the register given the name of the variable and the type. When the slot registers
  of the environment are all below the count of its names, as in the empty environment,
  the returned register is fresh, and the same holds of the new environment.
\<close>

theorem add_local_behaviour:
  "add_local OtherObject typ env = Inl AssertionError
   \<and> (case add_local (VarObject var) typ env of
        Inl e \<Rightarrow> False
      | Inr (r, env') \<Rightarrow>
          r = CRegister (int (length (names env)))
          \<and> lookup var env' = Inr r
          \<and> map_of (names env') r = Some (var_name var)
          \<and> map_of (types env') r = Some typ
          \<and> (slots_below_length env \<longrightarrow>
                r \<notin> fst ` set (names env) \<and> slots_below_length env'))
   \<and> slots_below_length Environment_init"
proof (intro conjI)
  show "add_local OtherObject typ env = Inl AssertionError" by simp
  show "slots_below_length Environment_init"
    by (simp add: slots_below_length_def Environment_init_def)
  show "case add_local (VarObject var) typ env of
        Inl e \<Rightarrow> False
      | Inr (r, env') \<Rightarrow>
          r = CRegister (int (length (names env)))
          \<and> lookup var env' = Inr r
          \<and> map_of (names env') r = Some (var_name var)
          \<and> map_of (types env') r = Some typ
          \<and> (slots_below_length env \<longrightarrow>
                r \<notin> fst ` set (names env) \<and> slots_below_length env')"
    using slots_below_length_add(1)[of env]
          slots_below_length_add(2)[of env "var_name var" "typ"
            "AList.update var (CRegister (int (length (names env)))) (symtable env)"]
    by (simp add: Let_def lookup_def env_add_def update_conv')
qed

theorem add_local_behaviour_witness:
  "slots_below_length Environment_init
   \<and> add_local (VarObject (Var 0 ''x'')) int_rprimitive Environment_init
     = Inr (CRegister 0,
            \<lparr> indexes = [(CRegister 0, 0)], names = [(CRegister 0, ''x'')],
              types = [(CRegister 0, int_rprimitive)],
              symtable = [(Var 0 ''x'', CRegister 0)], temp_index = 0 \<rparr>)
   \<and> CRegister 0 \<notin> fst ` set (names Environment_init)
   \<and> slots_below_length
        \<lparr> indexes = [(CRegister 0, 0)], names = [(CRegister 0, ''x'')],
          types = [(CRegister 0, int_rprimitive)],
          symtable = [(Var 0 ''x'', CRegister 0)], temp_index = 0 \<rparr>"
  using add_local_behaviour[of int_rprimitive Environment_init "Var 0 ''x''"]
  by (simp add: Environment_init_def env_add_def Let_def)

section \<open>The error value of a tuple (ops.py, emitfunc.py)\<close>

text \<open>
  A tuple type has no sentinel that is a single expression, and
  \<^verbatim>\<open>visit_load_error_value\<close> raises on every \<^verbatim>\<open>LoadErrorValue\<close>, of a tuple type or of
  another: it reads \<^verbatim>\<open>op.rtype\<close> before anything else.
\<close>

lemma c_undefined_value_rtuple: "c_undefined_value absent (RTuple ts) = Inl AssertionError"
  by simp

lemma visit_load_error_value_raises:
  "visit_load_error_value emitter absent unique_id operation e = Inl AttributeError"
  by (simp add: visit_load_error_value_def LoadErrorValue_rtype_def)

text \<open>
  Claim C6, at a concrete input: the tuple type of an \<^verbatim>\<open>int\<close> and a \<^verbatim>\<open>bool\<close>. Its
  \<^verbatim>\<open>c_undefined_value\<close> fails the assertion. The \<^verbatim>\<open>LoadErrorValue\<close> of that type holds
  the type (its \<^verbatim>\<open>type\<close> property returns it), and emitting it raises
  \<^verbatim>\<open>AttributeError\<close> at \<^verbatim>\<open>op.rtype\<close>: no temporary is declared and no line is emitted.
\<close>

theorem load_error_value_attribute_error:
  "c_undefined_value example_absent (RTuple [int_rprimitive, bool_rprimitive])
     = Inl AssertionError
   \<and> LoadErrorValue_type (LoadErrorValue_init 0 (RTuple [int_rprimitive, bool_rprimitive]) (- 1))
     = RTuple [int_rprimitive, bool_rprimitive]
   \<and> visit_load_error_value example_emitter example_absent example_unique_id
        (LoadErrorValue_init 0 (RTuple [int_rprimitive, bool_rprimitive]) (- 1)) []
     = Inl AttributeError"
  by (simp add: visit_load_error_value_def LoadErrorValue_rtype_def LoadErrorValue_type_def
        LoadErrorValue_init_def)

section \<open>Topological order of the declarations (emitmodule.py)\<close>

lemma toposort_inv_marked:
  "toposort_inv decls st ord \<Longrightarrow>
   map_of (marked_declarations st) x
     = map_option (\<lambda>d. \<lparr> header_declaration = d, mark = (x \<in> set ord) \<rparr>) (map_of decls x)"
  by (simp add: toposort_inv_def)

lemma toposort_inv_result:
  "toposort_inv decls st ord \<Longrightarrow> result st = map (\<lambda>x. the (map_of decls x)) ord"
  by (simp add: toposort_inv_def)

lemma toposort_inv_distinct: "toposort_inv decls st ord \<Longrightarrow> distinct ord"
  by (simp add: toposort_inv_def)

lemma toposort_inv_keys: "toposort_inv decls st ord \<Longrightarrow> set ord \<subseteq> fst ` set decls"
  by (simp add: toposort_inv_def)

lemma toposort_inv_before:
  assumes "toposort_inv decls st ord"
  shows "\<forall>i<length ord. \<forall>y\<in>set (dependencies (the (map_of decls (ord ! i)))).
            \<exists>j<i. ord ! j = y"
  using assms by (simp add: toposort_inv_def)

lemma before_snoc:
  assumes old: "\<forall>i<length ord. \<forall>y\<in>set (deps (ord ! i)). \<exists>j<i. ord ! j = y"
    and new: "set (deps x) \<subseteq> set ord"
  shows "\<forall>i<length (ord @ [x]). \<forall>y\<in>set (deps ((ord @ [x]) ! i)). \<exists>j<i. (ord @ [x]) ! j = y"
proof (intro allI impI ballI)
  fix i y
  assume i: "i < length (ord @ [x])" and y: "y \<in> set (deps ((ord @ [x]) ! i))"
  show "\<exists>j<i. (ord @ [x]) ! j = y"
  proof (cases "i < length ord")
    case True
    then have "y \<in> set (deps (ord ! i))" using y by (simp add: nth_append)
    with old True obtain j where j: "j < i" "ord ! j = y" by blast
    then have "(ord @ [x]) ! j = y" using True by (simp add: nth_append)
    with j(1) show ?thesis by blast
  next
    case False
    then have il: "i = length ord" using i by simp
    then have "y \<in> set (deps x)" using y by simp
    then have "y \<in> set ord" using new by blast
    then obtain j where j: "j < length ord" "ord ! j = y" by (auto simp: in_set_conv_nth)
    then have "(ord @ [x]) ! j = y" by (simp add: nth_append)
    with j(1) il show ?thesis by blast
  qed
qed

lemma toposort_inv_mark:
  assumes inv: "toposort_inv decls st ord"
    and d: "map_of decls x = Some d" and notin: "x \<notin> set ord"
    and deps: "set (dependencies d) \<subseteq> set ord"
  shows "toposort_inv decls
           (st\<lparr> result := result st @ [d],
                marked_declarations :=
                  AList.update x \<lparr> header_declaration = d, mark = True \<rparr>
                    (marked_declarations st) \<rparr>)
           (ord @ [x])"
proof -
  have xin: "x \<in> fst ` set decls" using d by (metis map_of_eq_None_iff option.distinct(1))
  have "set (dependencies (the (map_of decls x))) \<subseteq> set ord" using deps d by simp
  from before_snoc[of ord "\<lambda>x. dependencies (the (map_of decls x))" x,
         OF toposort_inv_before[OF inv] this]
  have prec: "\<forall>i<length (ord @ [x]).
        \<forall>y\<in>set (dependencies (the (map_of decls ((ord @ [x]) ! i)))).
            \<exists>j<i. (ord @ [x]) ! j = y" .
  have marked: "\<And>z. map_of (AList.update x \<lparr> header_declaration = d, mark = True \<rparr>
                         (marked_declarations st)) z
            = map_option (\<lambda>d. \<lparr> header_declaration = d, mark = (z \<in> set (ord @ [x])) \<rparr>)
                (map_of decls z)"
  proof -
    fix z
    show "map_of (AList.update x \<lparr> header_declaration = d, mark = True \<rparr>
                         (marked_declarations st)) z
            = map_option (\<lambda>d. \<lparr> header_declaration = d, mark = (z \<in> set (ord @ [x])) \<rparr>)
                (map_of decls z)"
    proof (cases "z = x")
      case True
      then show ?thesis using d by (simp add: update_conv')
    next
      case False
      then show ?thesis using toposort_inv_marked[OF inv, of z] by (simp add: update_conv')
    qed
  qed
  have res: "result st @ [d] = map (\<lambda>x. the (map_of decls x)) (ord @ [x])"
    using toposort_inv_result[OF inv] d by simp
  have dist: "distinct (ord @ [x])" using toposort_inv_distinct[OF inv] notin by simp
  have keys: "set (ord @ [x]) \<subseteq> fst ` set decls" using toposort_inv_keys[OF inv] xin by simp
  show ?thesis
    unfolding toposort_inv_def
    using marked res dist keys prec by simp
qed

lemma toposort_children_ok:
  assumes visit_n: "\<And>x st ord. x \<in> fst ` set decls \<Longrightarrow> rank x < n \<Longrightarrow> toposort_inv decls st ord \<Longrightarrow>
            \<exists>st' ord'. toposort_visit n x st = Some (Inr st')
              \<and> toposort_inv decls st' (ord @ ord') \<and> x \<in> set (ord @ ord')
              \<and> (\<forall>z\<in>set ord'. rank z \<le> rank x)"
    and "\<forall>c\<in>set cs. c \<in> fst ` set decls \<and> rank c < r"
    and "r \<le> n"
    and "toposort_inv decls st ord"
  shows "\<exists>st' ord'. toposort_visit_children n cs st = Some (Inr st')
              \<and> toposort_inv decls st' (ord @ ord') \<and> set cs \<subseteq> set (ord @ ord')
              \<and> (\<forall>z\<in>set ord'. rank z < (r::nat))"
  using assms(2,4)
proof (induction cs arbitrary: st ord)
  case Nil
  then show ?case by (intro exI[of _ st] exI[of _ "[]"]) simp
next
  case (Cons c cs)
  have c: "c \<in> fst ` set decls" "rank c < r" using Cons.prems(1) by auto
  then have "rank c < n" using assms(3) by simp
  from visit_n[OF c(1) this Cons.prems(2)] obtain st1 ord1 where
    v: "toposort_visit n c st = Some (Inr st1)"
      "toposort_inv decls st1 (ord @ ord1)" "c \<in> set (ord @ ord1)"
      "\<forall>z\<in>set ord1. rank z \<le> rank c" by blast
  have "\<forall>c\<in>set cs. c \<in> fst ` set decls \<and> rank c < r" using Cons.prems(1) by simp
  from Cons.IH[OF this v(2)] obtain st2 ord2 where
    w: "toposort_visit_children n cs st1 = Some (Inr st2)"
       "toposort_inv decls st2 ((ord @ ord1) @ ord2)" "set cs \<subseteq> set ((ord @ ord1) @ ord2)"
       "\<forall>z\<in>set ord2. rank z < r" by blast
  show ?case
  proof (intro exI[of _ st2] exI[of _ "ord1 @ ord2"] conjI)
    show "toposort_visit_children n (c # cs) st = Some (Inr st2)" using v(1) w(1) by simp
    show "toposort_inv decls st2 (ord @ ord1 @ ord2)" using w(2) by simp
    show "set (c # cs) \<subseteq> set (ord @ ord1 @ ord2)" using v(3) w(3) by auto
    show "\<forall>z\<in>set (ord1 @ ord2). rank z < r" using v(4) w(4) c(2) by auto
  qed
qed

lemma toposort_visit_ok:
  assumes dom: "Domain (depends_on decls) \<subseteq> fst ` set decls"
    and rank_less: "\<forall>(y, x)\<in>depends_on decls. rank y < (rank x :: nat)"
  shows "x \<in> fst ` set decls \<Longrightarrow> rank x < n \<Longrightarrow> toposort_inv decls st ord \<Longrightarrow>
            \<exists>st' ord'. toposort_visit n x st = Some (Inr st')
              \<and> toposort_inv decls st' (ord @ ord') \<and> x \<in> set (ord @ ord')
              \<and> (\<forall>z\<in>set ord'. rank z \<le> rank x)"
proof (induction n arbitrary: x st ord)
  case 0
  then show ?case by simp
next
  case (Suc n)
  from Suc.prems(1) obtain d where d: "map_of decls x = Some d"
    by (metis map_of_eq_None_iff not_None_eq)
  have m: "map_of (marked_declarations st) x
             = Some \<lparr> header_declaration = d, mark = (x \<in> set ord) \<rparr>"
    using toposort_inv_marked[OF Suc.prems(3), of x] d by simp
  show ?case
  proof (cases "x \<in> set ord")
    case True
    show ?thesis
      by (intro exI[of _ st] exI[of _ "[]"]) (use True m Suc.prems(3) in simp)
  next
    case False
    have "\<forall>c\<in>set (dependencies d). (c, x) \<in> depends_on decls"
      using d unfolding depends_on_def by simp
    then have cs: "\<forall>c\<in>set (dependencies d). c \<in> fst ` set decls \<and> rank c < rank x"
      using dom rank_less by blast
    have le: "rank x \<le> n" using Suc.prems(2) by simp
    from toposort_children_ok[of decls rank n "dependencies d" "rank x" st ord,
           OF Suc.IH cs le Suc.prems(3)]
    obtain st1 ord1 where
      w: "toposort_visit_children n (dependencies d) st = Some (Inr st1)"
         "toposort_inv decls st1 (ord @ ord1)" "set (dependencies d) \<subseteq> set (ord @ ord1)"
         "\<forall>z\<in>set ord1. rank z < rank x" by blast
    have notin: "x \<notin> set (ord @ ord1)" using False w(4) by auto
    let ?st2 = "st1\<lparr> result := result st1 @ [d],
                marked_declarations :=
                  AList.update x \<lparr> header_declaration = d, mark = True \<rparr>
                    (marked_declarations st1) \<rparr>"
    have inv2: "toposort_inv decls ?st2 ((ord @ ord1) @ [x])"
      by (rule toposort_inv_mark[OF w(2) d notin w(3)])
    show ?thesis
    proof (intro exI[of _ ?st2] exI[of _ "ord1 @ [x]"] conjI)
      show "toposort_visit (Suc n) x st = Some (Inr ?st2)"
        using m False w(1) by simp
      show "toposort_inv decls ?st2 (ord @ ord1 @ [x])" using inv2 by simp
      show "x \<in> set (ord @ ord1 @ [x])" by simp
      show "\<forall>z\<in>set (ord1 @ [x]). rank z \<le> rank x" using w(4) by auto
    qed
  qed
qed

lemma toposort_visit_all_ok:
  assumes visit_n: "\<And>x st ord. x \<in> fst ` set decls \<Longrightarrow> toposort_inv decls st ord \<Longrightarrow>
            \<exists>st' ord'. toposort_visit n x st = Some (Inr st')
              \<and> toposort_inv decls st' (ord @ ord') \<and> x \<in> set (ord @ ord')"
    and "set xs \<subseteq> fst ` set decls"
    and "toposort_inv decls st ord"
  shows "\<exists>st' ord'. toposort_visit_all n xs st = Some (Inr st')
              \<and> toposort_inv decls st' (ord @ ord') \<and> set xs \<subseteq> set (ord @ ord')"
  using assms(2,3)
proof (induction xs arbitrary: st ord)
  case Nil
  then show ?case by (intro exI[of _ st] exI[of _ "[]"]) simp
next
  case (Cons x xs)
  have x: "x \<in> fst ` set decls" using Cons.prems(1) by simp
  from visit_n[OF x Cons.prems(2)] obtain st1 ord1 where
    v: "toposort_visit n x st = Some (Inr st1)"
      "toposort_inv decls st1 (ord @ ord1)" "x \<in> set (ord @ ord1)" by blast
  have "set xs \<subseteq> fst ` set decls" using Cons.prems(1) by simp
  from Cons.IH[OF this v(2)] obtain st2 ord2 where
    w: "toposort_visit_all n xs st1 = Some (Inr st2)"
       "toposort_inv decls st2 ((ord @ ord1) @ ord2)" "set xs \<subseteq> set ((ord @ ord1) @ ord2)"
    by blast
  show ?case
  proof (intro exI[of _ st2] exI[of _ "ord1 @ ord2"] conjI)
    show "toposort_visit_all n (x # xs) st = Some (Inr st2)" using v(1) w(1) by simp
    show "toposort_inv decls st2 (ord @ ord1 @ ord2)" using w(2) by simp
    show "set (x # xs) \<subseteq> set (ord @ ord1 @ ord2)" using v(3) w(3) by auto
  qed
qed

lemma depends_on_finite: "finite (depends_on decls)"
proof -
  have "depends_on decls \<subseteq> (\<Union>p\<in>set decls. set (dependencies (snd p)) \<times> {fst p})"
    unfolding depends_on_def by (auto dest!: map_of_SomeD)
  moreover have "finite (\<Union>p\<in>set decls. set (dependencies (snd p)) \<times> {fst p})" by simp
  ultimately show ?thesis by (rule finite_subset)
qed

lemma acyclic_rank:
  assumes fin: "finite r" and acyc: "acyclic r" and yx: "(y, x) \<in> r"
  shows "card {z. (z, y) \<in> r\<^sup>+} < card {z. (z, x) \<in> r\<^sup>+}"
proof (rule psubset_card_mono)
  have "{z. (z, x) \<in> r\<^sup>+} \<subseteq> Domain r"
  proof
    fix z assume "z \<in> {z. (z, x) \<in> r\<^sup>+}"
    then have "z \<in> Domain (r\<^sup>+)" by (simp add: Domain.simps del: trancl_domain) blast
    then show "z \<in> Domain r" by simp
  qed
  moreover have "finite (Domain r)" using fin by (simp add: finite_Domain)
  ultimately show "finite {z. (z, x) \<in> r\<^sup>+}" by (rule finite_subset)
  have sub: "{z. (z, y) \<in> r\<^sup>+} \<subseteq> {z. (z, x) \<in> r\<^sup>+}" using yx by (auto intro: trancl_into_trancl)
  have "y \<in> {z. (z, x) \<in> r\<^sup>+}" using yx by auto
  moreover have "y \<notin> {z. (z, y) \<in> r\<^sup>+}" using acyc by (auto simp: acyclic_def)
  ultimately show "{z. (z, y) \<in> r\<^sup>+} \<subset> {z. (z, x) \<in> r\<^sup>+}" using sub by blast
qed

lemma rank_below_length:
  assumes dom: "Domain (depends_on decls) \<subseteq> fst ` set decls"
    and acyc: "acyclic (depends_on decls)"
    and x: "x \<in> fst ` set decls"
  shows "card {z. (z, x) \<in> (depends_on decls)\<^sup>+} < length decls"
proof -
  have "{z. (z, x) \<in> (depends_on decls)\<^sup>+} \<subseteq> fst ` set decls - {x}"
  proof
    fix z assume "z \<in> {z. (z, x) \<in> (depends_on decls)\<^sup>+}"
    then have zx: "(z, x) \<in> (depends_on decls)\<^sup>+" by simp
    then have "z \<in> Domain ((depends_on decls)\<^sup>+)"
      by (simp add: Domain.simps del: trancl_domain) blast
    then have "z \<in> fst ` set decls" using dom by auto
    moreover have "z \<noteq> x" using zx acyc by (auto simp: acyclic_def)
    ultimately show "z \<in> fst ` set decls - {x}" by simp
  qed
  then have "card {z. (z, x) \<in> (depends_on decls)\<^sup>+} \<le> card (fst ` set decls - {x})"
    by (simp add: card_mono)
  also have "\<dots> < card (fst ` set decls)" by (rule card_Diff1_less) (simp_all add: x)
  also have "\<dots> \<le> length decls" by (metis card_length length_map list.set_map)
  finally show ?thesis .
qed

lemma rank_acyclic:
  assumes "\<And>y x. (y, x) \<in> r \<Longrightarrow> f y < (f x :: nat)"
  shows "acyclic r"
proof -
  have "r \<subseteq> measure f" using assms by auto
  then have "wf r" by (rule wf_subset[OF wf_measure])
  then show ?thesis by (rule wf_acyclic)
qed

lemma pairs_of_order:
  assumes keys: "distinct (map fst decls)"
    and dist: "distinct ord" and set_eq: "set ord = fst ` set decls"
  shows "mset (map (\<lambda>x. (x, the (map_of decls x))) ord) = mset decls"
proof -
  have ddecls: "distinct decls" using keys by (rule distinct_map[THEN iffD1, THEN conjunct1])
  have dps: "distinct (map (\<lambda>x. (x, the (map_of decls x))) ord)"
    using dist by (simp add: distinct_map inj_on_def)
  have "set (map (\<lambda>x. (x, the (map_of decls x))) ord) = set decls"
  proof
    show "set (map (\<lambda>x. (x, the (map_of decls x))) ord) \<subseteq> set decls"
    proof
      fix p assume "p \<in> set (map (\<lambda>x. (x, the (map_of decls x))) ord)"
      then obtain x where x: "x \<in> set ord" "p = (x, the (map_of decls x))" by auto
      then have "x \<in> fst ` set decls" using set_eq by simp
      then obtain d where "map_of decls x = Some d"
        by (metis map_of_eq_None_iff not_None_eq)
      then show "p \<in> set decls" using x(2) by (auto dest: map_of_SomeD)
    qed
    show "set decls \<subseteq> set (map (\<lambda>x. (x, the (map_of decls x))) ord)"
    proof
      fix p assume p: "p \<in> set decls"
      obtain x d where xd: "p = (x, d)" by (cases p)
      then have "map_of decls x = Some d" using p keys by simp
      moreover have "x \<in> set ord" using p xd set_eq by force
      ultimately show "p \<in> set (map (\<lambda>x. (x, the (map_of decls x))) ord)"
        using xd by force
    qed
  qed
  with set_eq_iff_mset_eq_distinct[OF dps ddecls] show ?thesis by blast
qed

text \<open>
  Why the graph has to be acyclic: a declaration that lists itself is visited again
  before it is marked, at every depth.
\<close>

lemma toposort_visit_self_cycle:
  "map_of (marked_declarations st) x
     = Some \<lparr> header_declaration = \<lparr> dependencies = [x], body = b \<rparr>, mark = False \<rparr> \<Longrightarrow>
   toposort_visit n x st = None"
  by (induction n) simp_all

lemma toposort_declarations_self_cycle:
  "toposort_declarations n [(x, \<lparr> dependencies = [x], body = b \<rparr>)] = None"
  using toposort_visit_self_cycle[of
          "\<lparr> marked_declarations =
               [(x, \<lparr> header_declaration = \<lparr> dependencies = [x], body = b \<rparr>, mark = False \<rparr>)],
             result = [] \<rparr>" x b n]
  by (simp add: toposort_declarations_def MarkedDeclaration_init_def)

text \<open>
  Claim C1. Let the declaration dict have distinct keys, let every dependency be a key
  of the dict, and let the dependency graph be acyclic. Then
  \<^verbatim>\<open>toposort_declarations\<close> returns, at any recursion depth of at least the number of
  declarations: the returned list holds every declaration of the dict exactly once (it
  is the list of the declarations of a permutation of the items of the dict), and
  every dependency of a declaration stands before it in the list. The witness is the
  diamond.
\<close>

theorem toposort_declarations_order:
  assumes keys: "distinct (map fst declarations)"
    and closed: "\<forall>(x, d)\<in>set declarations. set (dependencies d) \<subseteq> fst ` set declarations"
    and acyc: "acyclic (depends_on declarations)"
  shows "\<forall>n\<ge>length declarations. \<exists>ps.
           toposort_declarations n declarations = Some (Inr (map snd ps))
           \<and> mset ps = mset declarations
           \<and> (\<forall>i<length ps. \<forall>y\<in>set (dependencies (snd (ps ! i))). \<exists>j<i. fst (ps ! j) = y)"
proof (intro allI impI)
  fix n assume n: "length declarations \<le> n"
  let ?rank = "\<lambda>x. card {z. (z, x) \<in> (depends_on declarations)\<^sup>+}"
  have dom: "Domain (depends_on declarations) \<subseteq> fst ` set declarations"
    using closed unfolding depends_on_def by (auto dest!: map_of_SomeD)
  have rank: "\<forall>(y, x)\<in>depends_on declarations. ?rank y < ?rank x"
    using acyclic_rank[OF depends_on_finite acyc] by blast
  have visit_n: "\<And>x st ord. x \<in> fst ` set declarations \<Longrightarrow> toposort_inv declarations st ord \<Longrightarrow>
            \<exists>st' ord'. toposort_visit n x st = Some (Inr st')
              \<and> toposort_inv declarations st' (ord @ ord') \<and> x \<in> set (ord @ ord')"
  proof -
    fix x st ord
    assume x: "x \<in> fst ` set declarations" and inv: "toposort_inv declarations st ord"
    from rank_below_length[OF dom acyc x] have "?rank x < n" using n by simp
    from toposort_visit_ok[of declarations ?rank x n st ord, OF dom rank x this inv]
    show "\<exists>st' ord'. toposort_visit n x st = Some (Inr st')
              \<and> toposort_inv declarations st' (ord @ ord') \<and> x \<in> set (ord @ ord')"
      by blast
  qed
  let ?marked = "map (\<lambda>(k, v). (k, MarkedDeclaration_init v False)) declarations"
  let ?st0 = "\<lparr> marked_declarations = ?marked, result = [] \<rparr>"
  have fstm: "map fst ?marked = map fst declarations" by (simp add: case_prod_beta)
  have m0: "\<And>x. map_of ?marked x
              = map_option (\<lambda>d. \<lparr> header_declaration = d, mark = False \<rparr>)
                  (map_of declarations x)"
    by (simp add: map_of_map MarkedDeclaration_init_def)
  have inv0: "toposort_inv declarations ?st0 []"
    unfolding toposort_inv_def using m0 by simp
  have "set (map fst ?marked) \<subseteq> fst ` set declarations" using fstm by simp
  from toposort_visit_all_ok[of declarations n "map fst ?marked" ?st0 "[]",
         OF visit_n this inv0]
  obtain st' ord where
    r: "toposort_visit_all n (map fst ?marked) ?st0 = Some (Inr st')"
       "toposort_inv declarations st' ord" "set (map fst ?marked) \<subseteq> set ord"
    by auto
  have set_eq: "set ord = fst ` set declarations"
    using r(3) fstm toposort_inv_keys[OF r(2)] by auto
  let ?ps = "map (\<lambda>x. (x, the (map_of declarations x))) ord"
  have res: "result st' = map snd ?ps"
    using toposort_inv_result[OF r(2)] by (simp add: comp_def)
  have run: "toposort_declarations n declarations = Some (Inr (map snd ?ps))"
    unfolding toposort_declarations_def Let_def using r(1) res by simp
  have perm: "mset ?ps = mset declarations"
    by (rule pairs_of_order[OF keys toposort_inv_distinct[OF r(2)] set_eq])
  have before: "\<forall>i<length ?ps. \<forall>y\<in>set (dependencies (snd (?ps ! i))). \<exists>j<i. fst (?ps ! j) = y"
  proof (intro allI impI ballI)
    fix i y assume i: "i < length ?ps" and y: "y \<in> set (dependencies (snd (?ps ! i)))"
    then have "y \<in> set (dependencies (the (map_of declarations (ord ! i))))" by simp
    with toposort_inv_before[OF r(2)] i obtain j where j: "j < i" "ord ! j = y" by auto
    then have "fst (?ps ! j) = y" using i by simp
    with j(1) show "\<exists>j<i. fst (?ps ! j) = y" by blast
  qed
  show "\<exists>ps. toposort_declarations n declarations = Some (Inr (map snd ps))
           \<and> mset ps = mset declarations
           \<and> (\<forall>i<length ps. \<forall>y\<in>set (dependencies (snd (ps ! i))). \<exists>j<i. fst (ps ! j) = y)"
    using run perm before by blast
qed

theorem toposort_declarations_order_witness:
  "distinct (map fst diamond)
   \<and> list_all (\<lambda>(x, d). set (dependencies d) \<subseteq> fst ` set diamond) diamond
   \<and> acyclic (depends_on diamond)
   \<and> (\<exists>ps. toposort_declarations 4 diamond = Some (Inr (map snd ps))
           \<and> mset ps = mset diamond
           \<and> (\<forall>i<length ps. \<forall>y\<in>set (dependencies (snd (ps ! i))). \<exists>j<i. fst (ps ! j) = y))
   \<and> toposort_declarations 4 diamond
       = Some (Inr [\<lparr> dependencies = [], body = [''struct W;''] \<rparr>,
                    \<lparr> dependencies = [''W''], body = [''struct Y;''] \<rparr>,
                    \<lparr> dependencies = [''W''], body = [''struct Z;''] \<rparr>,
                    \<lparr> dependencies = [''Y'', ''Z''], body = [''struct X;''] \<rparr>])"
proof -
  have h1: "distinct (map fst diamond)" by (simp add: diamond_def)
  have h2: "\<forall>(x, d)\<in>set diamond. set (dependencies d) \<subseteq> fst ` set diamond"
    by (simp add: diamond_def)
  have h3: "acyclic (depends_on diamond)"
  proof (rule rank_acyclic[where f = "\<lambda>x. if x = ''W'' then 0 else if x = ''X'' then 2 else 1"])
    fix y x assume "(y, x) \<in> depends_on diamond"
    then show "(if y = ''W'' then 0 else if y = ''X'' then 2 else 1)
               < (if x = ''W'' then 0 else if x = ''X'' then 2 else (1::nat))"
      by (auto simp: depends_on_def diamond_def split: if_splits)
  qed
  have len: "length diamond \<le> 4" by (simp add: diamond_def)
  have h4: "\<exists>ps. toposort_declarations 4 diamond = Some (Inr (map snd ps))
           \<and> mset ps = mset diamond
           \<and> (\<forall>i<length ps. \<forall>y\<in>set (dependencies (snd (ps ! i))). \<exists>j<i. fst (ps ! j) = y)"
    using toposort_declarations_order[OF h1 h2 h3] len by blast
  have h5: "toposort_declarations 4 diamond
       = Some (Inr [\<lparr> dependencies = [], body = [''struct W;''] \<rparr>,
                    \<lparr> dependencies = [''W''], body = [''struct Y;''] \<rparr>,
                    \<lparr> dependencies = [''W''], body = [''struct Z;''] \<rparr>,
                    \<lparr> dependencies = [''Y'', ''Z''], body = [''struct X;''] \<rparr>])"
    by (simp add: toposort_declarations_def diamond_def MarkedDeclaration_init_def
          numeral_eq_Suc)
  have h2': "list_all (\<lambda>(x, d). set (dependencies d) \<subseteq> fst ` set diamond) diamond"
    using h2 by (simp add: list_all_iff)
  show ?thesis using h1 h2' h3 h4 h5 by blast
qed

end
